theory Spec2Isabelle
  imports Main
begin

section \<open>The dataframe builder back end (dfbuilder.py)\<close>

text \<open>
  A shallow embedding of \<^verbatim>\<open>heron_extract/cdr2edc/dfbuilder.py\<close>: the path resolution
  of metadata keys, the staging of concepts, the queries against the star schema, the
  export into the destination store, the top-level entry point and the completion mail.

  The queries are built in the source as SQLAlchemy expressions; they are embedded by what
  they select, as list comprehensions over the rows of the tables. The order of the rows
  of a result is the order of the comprehension and carries no meaning (the source's
  \<^verbatim>\<open>order_by\<close> of the term queries is not modelled). The table declarations
  (\<^verbatim>\<open>i2b2_star\<close>) are not part of the source file; the rows below carry the columns
  the queries name, and one field for all the others.
\<close>

subsection \<open>Exceptions\<close>

text \<open>
  The exceptions of the Python code that matter here, each with its message text.
  \<open>DatabaseError\<close> stands for the errors of the database layer
  (\<^verbatim>\<open>sqlalchemy.exc\<close>), which are not subclasses of \<^verbatim>\<open>IOError\<close>.
  A computation that may raise returns \<open>exn + 'a\<close>, \<open>Inl\<close> for the exception.
\<close>

datatype exn =
    IOError string
  | OSError string
  | KeyError string
  | NoOptionError string
  | DatabaseError string

fun is_IOError :: "exn \<Rightarrow> bool" where
  "is_IOError (IOError m) = True"
| "is_IOError e = False"

definition bind_res :: "exn + 'a \<Rightarrow> ('a \<Rightarrow> exn + 'b) \<Rightarrow> exn + 'b" where
  "bind_res m f = (case m of Inl e \<Rightarrow> Inl e | Inr x \<Rightarrow> f x)"

subsection \<open>Strings: \<^verbatim>\<open>split\<close>, \<^verbatim>\<open>join\<close>, \<^verbatim>\<open>keys_to_paths\<close>\<close>

text \<open>The separator of the hierarchical keys, the backslash.\<close>

definition bs :: char where
  "bs = CHR 0x5C"

text \<open>
  Python's \<^verbatim>\<open>str.split(sep)\<close> for a one-character separator: a string with \<open>n\<close>
  separators has \<open>n + 1\<close> segments, empty ones included.
\<close>

fun split_str :: "char \<Rightarrow> string \<Rightarrow> string list" where
  "split_str sep [] = [[]]"
| "split_str sep (c # cs) =
     (if c = sep then [] # split_str sep cs
      else (case split_str sep cs of
              [] \<Rightarrow> [[c]]
            | seg # segs \<Rightarrow> (c # seg) # segs))"

text \<open>Python's \<^verbatim>\<open>sep.join(segments)\<close>.\<close>

fun join_str :: "string \<Rightarrow> string list \<Rightarrow> string" where
  "join_str sep [] = []"
| "join_str sep [x] = x"
| "join_str sep (x # y # ys) = x @ sep @ join_str sep (y # ys)"

text \<open>
  \<^verbatim>\<open>I2B2MetaData.keys_to_paths\<close>:
  \<^verbatim>\<open>[bs + bs.join(key.split(bs)[3:]) for key in keys]\<close>.
  A slice past the end of a list is the empty list in Python, as \<open>drop\<close> is here.
\<close>

definition keys_to_paths :: "string list \<Rightarrow> string list" where
  "keys_to_paths keys =
     map (\<lambda>key. bs # join_str [bs] (drop 3 (split_str bs key))) keys"

subsection \<open>\<^verbatim>\<open>strip_counts\<close>\<close>

text \<open>
  \<^verbatim>\<open>re.sub(r' \[\d+.*\]', '', txt)\<close>. The pattern is a space, an opening bracket, one or
  more digits, any characters but a newline, and a closing bracket; both repetitions are
  greedy. The matcher below follows the backtracking of the regular expression engine:
  each repetition first tries to take one more character and falls back to the rest of
  the pattern when that fails. Every function returns the text left after the match.
\<close>

definition is_digit :: "char \<Rightarrow> bool" where
  "is_digit c = (c \<in> set ''0123456789'')"

text \<open>\<^verbatim>\<open>.*\]\<close>\<close>

fun match_any_bracket :: "string \<Rightarrow> string option" where
  "match_any_bracket [] = None"
| "match_any_bracket (c # cs) =
     (case (if c = CHR 0x0A then None else match_any_bracket cs) of
        Some r \<Rightarrow> Some r
      | None \<Rightarrow> if c = CHR '']'' then Some cs else None)"

text \<open>\<^verbatim>\<open>\d*.*\]\<close>, the part after the first digit\<close>

fun match_digits_bracket :: "string \<Rightarrow> string option" where
  "match_digits_bracket [] = match_any_bracket []"
| "match_digits_bracket (c # cs) =
     (case (if is_digit c then match_digits_bracket cs else None) of
        Some r \<Rightarrow> Some r
      | None \<Rightarrow> match_any_bracket (c # cs))"

text \<open>The whole pattern, matched at the start of the text.\<close>

fun match_count :: "string \<Rightarrow> string option" where
  "match_count (c1 # c2 # d # cs) =
     (if c1 = CHR '' '' \<and> c2 = CHR ''['' \<and> is_digit d
      then match_digits_bracket cs else None)"
| "match_count cs = None"

text \<open>A match takes at least one character, so the text left over is shorter.\<close>

lemma match_any_bracket_length:
  "match_any_bracket s = Some r \<Longrightarrow> length r < length s"
  by (induction s) (auto split: option.splits if_splits)

lemma match_digits_bracket_length:
  "match_digits_bracket s = Some r \<Longrightarrow> length r < length s"
proof (induction s)
  case Nil
  then show ?case by simp
next
  case (Cons c cs)
  then show ?case
    using match_any_bracket_length [of "c # cs" r]
    by (auto split: option.splits if_splits)
qed

lemma match_count_length:
  "match_count s = Some r \<Longrightarrow> length r < length s"
proof (induction s rule: match_count.induct)
  case (1 c1 c2 d cs)
  then show ?case
    using match_digits_bracket_length [of cs r] by (auto split: if_splits)
qed simp_all

text \<open>
  \<^verbatim>\<open>re.sub\<close> with the empty replacement: the text is scanned from the left; where
  the pattern matches, the match is dropped and the scan goes on behind it, and where it
  does not, the character is kept.
\<close>

function strip_counts :: "string \<Rightarrow> string" where
  "strip_counts [] = []"
| "strip_counts (c # cs) =
     (case match_count (c # cs) of
        Some r \<Rightarrow> strip_counts r
      | None \<Rightarrow> c # strip_counts cs)"
  by pat_completeness auto
termination
  by (relation "measure length") (auto dest: match_count_length)

subsection \<open>SQL operators\<close>

text \<open>
  \<^verbatim>\<open>subject LIKE pattern [ESCAPE e]\<close>, read as Oracle reads it (the driver of the
  source repository is \<^verbatim>\<open>oracle+cx_oracle\<close>): \<^verbatim>\<open>%\<close> stands for any run of
  characters, \<^verbatim>\<open>_\<close> for one character, every other character for itself, case kept.
  With an escape character, the character after it stands for itself; a pattern in which
  the escape character is followed by nothing or by an ordinary character is rejected by
  Oracle and matches nothing here.
\<close>

fun like_match :: "char option \<Rightarrow> string \<Rightarrow> string \<Rightarrow> bool" where
  "like_match esc [] s = (s = [])"
| "like_match esc (p # ps) s =
     (if Some p = esc then
        (case ps of
           [] \<Rightarrow> False
         | q # qs \<Rightarrow>
             (q = CHR ''%'' \<or> q = CHR ''_'' \<or> Some q = esc) \<and>
             (case s of [] \<Rightarrow> False | c # cs \<Rightarrow> c = q \<and> like_match esc qs cs))
      else if p = CHR ''%'' then
        (like_match esc ps s \<or>
         (case s of [] \<Rightarrow> False | c # cs \<Rightarrow> like_match esc (p # ps) cs))
      else if p = CHR ''_'' then
        (case s of [] \<Rightarrow> False | c # cs \<Rightarrow> like_match esc ps cs)
      else
        (case s of [] \<Rightarrow> False | c # cs \<Rightarrow> c = p \<and> like_match esc ps cs))"

text \<open>
  \<^verbatim>\<open>max(...)\<close> over a group: NULL values (\<open>None\<close>) are skipped, and the maximum of
  no value is NULL. An equality with NULL on either side is not true.
\<close>

fun sql_max :: "int option list \<Rightarrow> int option" where
  "sql_max [] = None"
| "sql_max (None # xs) = sql_max xs"
| "sql_max (Some a # xs) =
     (case sql_max xs of None \<Rightarrow> Some a | Some b \<Rightarrow> Some (max a b))"

fun sql_eq :: "'a option \<Rightarrow> 'a option \<Rightarrow> bool" where
  "sql_eq (Some a) (Some b) = (a = b)"
| "sql_eq x y = False"

subsection \<open>The tables of the source repository\<close>

text \<open>
  One record per table, its fields named after the alias the source gives the table and
  the column. \<open>tmp_row\<close> is a row of \<^verbatim>\<open>global_temp_fact_param_table\<close>: a staged
  path and the display name of its concept. The start date of a visit may be NULL; every
  other column is taken to hold a value.
\<close>

record tmp_row =
  char_param1 :: string
  char_param2 :: string

record cd_row =
  cd_concept_path :: string
  cd_concept_cd :: string
  cd_name_char :: string

record md_row =
  md_modifier_path :: string
  md_modifier_cd :: string
  md_name_char :: string

record fact_row =
  f_encounter_num :: int
  f_patient_num :: int
  f_concept_cd :: string
  f_other :: string

record pset_row =
  pset_result_instance_id :: int
  pset_patient_num :: int

record pd_row =
  pd_patient_num :: int
  pd_other :: string

record vd_row =
  vd_encounter_num :: int
  vd_patient_num :: int
  vd_start_date :: "int option"
  vd_other :: string

text \<open>
  The source repository as the account sees it. \<open>cdw_fault\<close> is the exception, if any,
  that the connection raises when a statement is executed on it.
\<close>

record cdw =
  patient_dimension :: "pd_row list"
  visit_dimension :: "vd_row list"
  concept_dimension :: "cd_row list"
  modifier_dimension :: "md_row list"
  observation_fact :: "fact_row list"
  qt_patient_set_collection :: "pset_row list"
  global_temp_fact_param_table :: "tmp_row list"
  query_global_temp :: "string list"
  cdw_fault :: "exn option"

text \<open>A dictionary row as the term queries select it: path, code, label.\<close>

type_synonym term_row = "string \<times> string \<times> string"

subsection \<open>\<^verbatim>\<open>DataExtract._term_query\<close>\<close>

text \<open>
  The two term queries over the staging table \<open>tmp\<close>, each a function of the repository:
  \<^verbatim>\<open>cd.concept_path LIKE (tmp.char_param1 || '%') ESCAPE escape\<close> for the concept
  dictionary and \<^verbatim>\<open>tmp.char_param1 LIKE md.modifier_path\<close>, with no escape character,
  for the modifier dictionary; both \<^verbatim>\<open>SELECT DISTINCT\<close>.
\<close>

definition term_query ::
  "(cdw \<Rightarrow> tmp_row list) \<Rightarrow> char \<Rightarrow> (cdw \<Rightarrow> term_row list) \<times> (cdw \<Rightarrow> term_row list)" where
  "term_query tmp escape =
     (let q_cd = (\<lambda>db. remdups
            [(cd_concept_path c, cd_concept_cd c, cd_name_char c).
               t \<leftarrow> tmp db, c \<leftarrow> concept_dimension db,
               like_match (Some escape) (char_param1 t @ ''%'') (cd_concept_path c)]);
          q_md = (\<lambda>db. remdups
            [(md_modifier_path m, md_modifier_cd m, md_name_char m).
               t \<leftarrow> tmp db, m \<leftarrow> modifier_dimension db,
               like_match None (md_modifier_path m) (char_param1 t)])
      in (q_cd, q_md))"

subsection \<open>\<^verbatim>\<open>DataExtract.patient_data_queries\<close>\<close>

text \<open>
  The statement that fills the code table \<^verbatim>\<open>query_global_temp\<close> with the distinct
  codes of the concept query, and the final selection of the facts, with the patient set
  identifier bound to \<open>rid\<close>:
  \<^verbatim>\<open>f JOIN code_tmp ON f.concept_cd = code_tmp.concept_cd
     JOIN pset ON pset.patient_num = f.patient_num WHERE pset.result_instance_id = :id\<close>.
\<close>

definition patient_data_queries ::
  "(cdw \<Rightarrow> tmp_row list) \<Rightarrow> (cdw \<Rightarrow> cdw) \<times> (int \<Rightarrow> cdw \<Rightarrow> fact_row list)" where
  "patient_data_queries tmp =
     (let tq_sql = fst (term_query tmp (CHR ''|''));
          ins = (\<lambda>db. db\<lparr>query_global_temp :=
                   query_global_temp db @ remdups (map (\<lambda>(path, code, name). code) (tq_sql db))\<rparr>);
          s_facts = (\<lambda>rid db.
            [f. f \<leftarrow> observation_fact db,
                code \<leftarrow> query_global_temp db, f_concept_cd f = code,
                pset \<leftarrow> qt_patient_set_collection db, pset_patient_num pset = f_patient_num f,
                pset_result_instance_id pset = rid])
      in (ins, s_facts))"

subsection \<open>\<^verbatim>\<open>DataExtract.patients_query\<close>\<close>

text \<open>
  \<open>last\<close>: per patient of the set that has a patient row, the latest start date of a
  visit. \<open>arb_visit\<close>: per patient, the largest encounter number among the visits that
  start at that date. The encounter query joins the visits with \<open>arb_visit\<close> on the
  encounter number alone.
\<close>

definition last_visits :: "int \<Rightarrow> cdw \<Rightarrow> (int \<times> int option) list" where
  "last_visits rid db =
     (let joined =
            [vd. vd \<leftarrow> visit_dimension db,
                 pd \<leftarrow> patient_dimension db, pd_patient_num pd = vd_patient_num vd,
                 pset \<leftarrow> qt_patient_set_collection db, pset_patient_num pset = pd_patient_num pd,
                 pset_result_instance_id pset = rid]
      in [(pn, sql_max (map vd_start_date [vd \<leftarrow> joined. vd_patient_num vd = pn])).
            pn \<leftarrow> remdups (map vd_patient_num joined)])"

definition arb_visits :: "int \<Rightarrow> cdw \<Rightarrow> (int option \<times> int) list" where
  "arb_visits rid db =
     (let joined =
            [vd. vd \<leftarrow> visit_dimension db,
                 l \<leftarrow> last_visits rid db,
                 vd_patient_num vd = fst l \<and> sql_eq (vd_start_date vd) (snd l)]
      in [(sql_max (map (\<lambda>vd. Some (vd_encounter_num vd))
                     [vd \<leftarrow> joined. vd_patient_num vd = pn]), pn).
            pn \<leftarrow> remdups (map vd_patient_num joined)])"

definition patients_query ::
  "(int \<Rightarrow> cdw \<Rightarrow> pd_row list) \<times> (int \<Rightarrow> cdw \<Rightarrow> vd_row list)" where
  "patients_query =
     (let pat_q = (\<lambda>rid db.
            [pd. pd \<leftarrow> patient_dimension db,
                 pset \<leftarrow> qt_patient_set_collection db, pset_patient_num pset = pd_patient_num pd,
                 pset_result_instance_id pset = rid]);
          enc_q = (\<lambda>rid db.
            [vd. vd \<leftarrow> visit_dimension db,
                 arb_visit \<leftarrow> arb_visits rid db,
                 sql_eq (fst arb_visit) (Some (vd_encounter_num vd))])
      in (pat_q, enc_q))"

subsection \<open>\<^verbatim>\<open>DataExtract\<close>: staging and the execution of the queries\<close>

text \<open>
  The concepts of a request are a dictionary with the entries \<^verbatim>\<open>names\<close> and
  \<^verbatim>\<open>keys\<close>; reading a missing entry raises \<^verbatim>\<open>KeyError\<close>.
\<close>

type_synonym concepts = "(string \<times> string list) list"

definition getitem :: "concepts \<Rightarrow> string \<Rightarrow> exn + string list" where
  "getitem d k = (case map_of d k of None \<Rightarrow> Inl (KeyError k) | Some v \<Rightarrow> Inr v)"

text \<open>
  \<^verbatim>\<open>account.execute\<close>, for a selection (the rows of the cursor it returns) and for a
  statement that changes the repository.
\<close>

definition execute_select :: "cdw \<Rightarrow> (cdw \<Rightarrow> 'a list) \<Rightarrow> exn + 'a list" where
  "execute_select db q = (case cdw_fault db of Some e \<Rightarrow> Inl e | None \<Rightarrow> Inr (q db))"

definition execute_update :: "cdw \<Rightarrow> (cdw \<Rightarrow> cdw) \<Rightarrow> exn + cdw" where
  "execute_update db stmt = (case cdw_fault db of Some e \<Rightarrow> Inl e | None \<Rightarrow> Inr (stmt db))"

text \<open>
  \<^verbatim>\<open>DataExtract._save_concepts\<close>: the rows to stage, one per pair of
  \<^verbatim>\<open>zip(paths, names)\<close>. The staging table it returns is always
  \<^verbatim>\<open>global_temp_fact_param_table\<close>; \<open>tmp_delete\<close> and \<open>tmp_insert\<close> are the
  statements \<^verbatim>\<open>tmp.delete()\<close> and \<^verbatim>\<open>ins\<close> with its parameters.
\<close>

definition save_concepts :: "concepts \<Rightarrow> exn + tmp_row list" where
  "save_concepts cs =
     bind_res (getitem cs ''names'') (\<lambda>names.
     bind_res (getitem cs ''keys'') (\<lambda>keys.
       Inr [\<lparr>char_param1 = path, char_param2 = name\<rparr>.
              (path, name) \<leftarrow> zip (keys_to_paths keys) names]))"

definition tmp_delete :: "cdw \<Rightarrow> cdw" where
  "tmp_delete db = db\<lparr>global_temp_fact_param_table := []\<rparr>"

definition tmp_insert :: "tmp_row list \<Rightarrow> cdw \<Rightarrow> cdw" where
  "tmp_insert rows db =
     db\<lparr>global_temp_fact_param_table := global_temp_fact_param_table db @ rows\<rparr>"

definition code_tmp_delete :: "cdw \<Rightarrow> cdw" where
  "code_tmp_delete db = db\<lparr>query_global_temp := []\<rparr>"

text \<open>The job, as \<^verbatim>\<open>DataExtract.__init__\<close> stores it; the constructor reads the keys.\<close>

record job =
  user_id :: string
  label :: string
  concepts :: concepts
  patient_set :: int
  filename :: string

definition DataExtract :: "string \<Rightarrow> string \<Rightarrow> concepts \<Rightarrow> int \<Rightarrow> string \<Rightarrow> exn + job" where
  "DataExtract uid lbl cs pset fname =
     bind_res (getitem cs ''keys'') (\<lambda>concept_keys.
       Inr \<lparr>user_id = uid, label = lbl, concepts = cs, patient_set = pset, filename = fname\<rparr>)"

text \<open>
  \<^verbatim>\<open>term_info\<close>: stage the concepts (clear the staging table, insert only if there is a
  row to insert) and execute the two term queries. The result holds the two cursors and
  the repository as the call leaves it.
\<close>

definition term_info :: "job \<Rightarrow> cdw \<Rightarrow> exn + ((term_row list \<times> term_row list) \<times> cdw)" where
  "term_info j db =
     bind_res (save_concepts (concepts j)) (\<lambda>bind.
     bind_res (execute_update db tmp_delete) (\<lambda>db1.
     bind_res (if length bind > 0 then execute_update db1 (tmp_insert bind) else Inr db1) (\<lambda>db2.
     (let (q_cd, q_md) = term_query global_temp_fact_param_table (CHR ''|'') in
     bind_res (execute_select db2 q_cd) (\<lambda>result_cd.
     bind_res (execute_select db2 q_md) (\<lambda>result_md.
       Inr ((result_cd, result_md), db2)))))))"

text \<open>
  \<^verbatim>\<open>patient_data\<close>: stage the concepts in the same way, clear and fill the code table,
  and execute the selection of the facts for the patient set of the job.
\<close>

definition patient_data :: "job \<Rightarrow> cdw \<Rightarrow> exn + (fact_row list \<times> cdw)" where
  "patient_data j db =
     bind_res (save_concepts (concepts j)) (\<lambda>var_bind.
     bind_res (execute_update db tmp_delete) (\<lambda>db1.
     bind_res (if length var_bind > 0 then execute_update db1 (tmp_insert var_bind)
               else Inr db1) (\<lambda>db2.
     (let (ins, sel) = patient_data_queries global_temp_fact_param_table in
     bind_res (execute_update db2 code_tmp_delete) (\<lambda>db3.
     bind_res (execute_update db3 ins) (\<lambda>db4.
     bind_res (execute_select db4 (sel (patient_set j))) (\<lambda>data.
       Inr (data, db4))))))))"

text \<open>\<^verbatim>\<open>demographics\<close>: execute the patient query and the encounter query.\<close>

definition demographics :: "job \<Rightarrow> cdw \<Rightarrow> exn + (pd_row list \<times> vd_row list)" where
  "demographics j db =
     (let (pat_q, enc_q) = patients_query in
     bind_res (execute_select db (pat_q (patient_set j))) (\<lambda>pat_data.
     bind_res (execute_select db (enc_q (patient_set j))) (\<lambda>enc_data.
       Inr (pat_data, enc_data))))"

subsection \<open>The destination store\<close>

text \<open>
  The rows of the two tables that exist only in the destination: \<^verbatim>\<open>job\<close> and
  \<^verbatim>\<open>variable\<close> (of the latter, the columns that \<^verbatim>\<open>export_terms\<close> fills).
\<close>

record job_row =
  job_pset :: int
  job_label :: string
  job_concepts :: concepts
  job_name :: string

record variable_row =
  v_id :: nat
  v_item_key :: string
  v_concept_path :: string
  v_name_char :: string
  v_name :: string

text \<open>
  The destination database: each table is \<open>None\<close> while it does not exist and holds its
  rows once it is created; the views are known by name. The dictionary tables of the
  destination hold the rows that the term queries select.
\<close>

record dest_db =
  dest_patient_dimension :: "pd_row list option"
  dest_visit_dimension :: "vd_row list option"
  dest_concept_dimension :: "term_row list option"
  dest_modifier_dimension :: "term_row list option"
  dest_observation_fact :: "fact_row list option"
  dest_job :: "job_row list option"
  dest_variable :: "variable_row list option"
  dest_views :: "string list"

definition no_such_table :: "string \<Rightarrow> exn" where
  "no_such_table t = DatabaseError (''no such table: '' @ t)"

definition already_exists :: "string \<Rightarrow> exn" where
  "already_exists t = DatabaseError (''table '' @ t @ '' already exists'')"

text \<open>
  Modelled from the spec: \<^verbatim>\<open>table_copy.copy_in_chunks\<close> is not part of the source
  file. Section 4.6 of the specification: it pulls rows from the source cursor in batches
  of a fixed size and inserts each batch into the destination table as one write, until
  the cursor is exhausted; the insert order is the order of the cursor; a batch insert
  that fails aborts the copy. The batch size \<open>n\<close> is fixed inside the missing module and
  is a parameter here. The result is the table and what is left on the cursor; an insert
  into a table that does not exist is the failure of the model. (The source passes a
  label, a list and, for the concept table, a column binding \<^verbatim>\<open>values\<close>, which have
  no counterpart here.)
\<close>

function copy_in_chunks ::
  "nat \<Rightarrow> 'a list \<Rightarrow> string \<Rightarrow> 'a list option \<Rightarrow> exn + ('a list option \<times> 'a list)" where
  "copy_in_chunks n data name tab =
     (if take n data = [] then Inr (tab, data)
      else (case tab of
              None \<Rightarrow> Inl (no_such_table name)
            | Some rows \<Rightarrow> copy_in_chunks n (drop n data) name (Some (rows @ take n data))))"
  by pat_completeness auto
termination
  by (relation "measure (\<lambda>(n, data, name, tab). length data)") auto

subsection \<open>\<^verbatim>\<open>DataDest\<close>: the steps of the export\<close>

definition data_tables :: "string list" where
  "data_tables = [''patient_dimension'', ''visit_dimension'', ''concept_dimension'',
                  ''modifier_dimension'', ''observation_fact'']"

text \<open>
  \<^verbatim>\<open>init_tables\<close>: the five tables of the star schema are dropped if they exist and
  created empty. \<^verbatim>\<open>sqla_float_date.create_unpacked_view\<close> is not part of the source
  file; going by the module's doctest it creates the view \<^verbatim>\<open><table>_dt\<close>, and it is
  taken here to replace a view of that name that an earlier run left.
\<close>

definition init_tables :: "dest_db \<Rightarrow> dest_db" where
  "init_tables dest =
     dest\<lparr>dest_patient_dimension := Some [],
          dest_visit_dimension := Some [],
          dest_concept_dimension := Some [],
          dest_modifier_dimension := Some [],
          dest_observation_fact := Some [],
          dest_views := foldr List.insert (map (\<lambda>t. t @ ''_dt'') data_tables) (dest_views dest)\<rparr>"

text \<open>
  \<^verbatim>\<open>export_job\<close>: \<^verbatim>\<open>jobt.drop(checkfirst=True)\<close>, \<^verbatim>\<open>jobt.create\<close>, one row.
  The column \<^verbatim>\<open>concepts\<close> holds the concepts (as JSON text in the source).
\<close>

definition export_job :: "dest_db \<Rightarrow> job \<Rightarrow> dest_db" where
  "export_job dest j =
     dest\<lparr>dest_job := Some [\<lparr>job_pset = patient_set j, job_label = label j,
                              job_concepts = concepts j, job_name = filename j\<rparr>]\<rparr>"

text \<open>\<^verbatim>\<open>export_data\<close>: the facts; the destination table is emptied before the copy.\<close>

definition export_data :: "nat \<Rightarrow> job \<Rightarrow> cdw \<times> dest_db \<Rightarrow> exn + (cdw \<times> dest_db)" where
  "export_data n j w =
     (let (db, dest) = w in
     bind_res (patient_data j db) (\<lambda>(data, db').
     bind_res (case dest_observation_fact dest of
                 None \<Rightarrow> Inl (no_such_table ''observation_fact'')
               | Some rows \<Rightarrow> Inr (Some [])) (\<lambda>obs.
     bind_res (copy_in_chunks n data ''observation_fact'' obs) (\<lambda>(obs', data').
       Inr (db', dest\<lparr>dest_observation_fact := obs'\<rparr>)))))"

text \<open>
  \<^verbatim>\<open>export_terms\<close>: \<^verbatim>\<open>v.create(bind=dest_db)\<close> creates the table
  \<^verbatim>\<open>variable\<close> without looking whether it exists, which the database refuses when it
  does. One row per triple of \<^verbatim>\<open>enumerate(zip(paths, keys, names))\<close> is inserted
  (for an empty list of concepts the source executes the insert with an empty parameter
  list, which leaves one row of defaults in the table; the model inserts no row then).
  Then the term queries are executed and copied: the first copy reads the cursor
  \<^verbatim>\<open>result_cd\<close> into the concept table, and the second copy, into the modifier table,
  names \<^verbatim>\<open>result_cd\<close> again, the same cursor as the first copy has left it;
  \<^verbatim>\<open>result_md\<close> is not read.
\<close>

definition export_terms :: "nat \<Rightarrow> job \<Rightarrow> cdw \<times> dest_db \<Rightarrow> exn + (cdw \<times> dest_db)" where
  "export_terms n j w =
     (let (db, dest) = w in
     bind_res (getitem (concepts j) ''keys'') (\<lambda>keys.
     bind_res (getitem (concepts j) ''names'') (\<lambda>names.
     (let paths = keys_to_paths keys in
     bind_res (case dest_variable dest of
                 Some rows \<Rightarrow> Inl (already_exists ''variable'')
               | None \<Rightarrow> Inr (dest\<lparr>dest_variable := Some []\<rparr>)) (\<lambda>dest1.
     (let dest2 = dest1\<lparr>dest_variable := Some
            [\<lparr>v_id = i, v_item_key = key, v_concept_path = path, v_name_char = name,
               v_name = strip_counts name\<rparr>.
               (i, (path, key, name)) \<leftarrow> List.enumerate 0 (zip paths (zip keys names))]\<rparr> in
     bind_res (term_info j db) (\<lambda>((result_cd, result_md), db').
     bind_res (copy_in_chunks n result_cd ''concept_dimension''
                 (dest_concept_dimension dest2)) (\<lambda>(cd, result_cd').
     bind_res (copy_in_chunks n result_cd' ''modifier_dimension''
                 (dest_modifier_dimension dest2)) (\<lambda>(md, result_cd'').
       Inr (db', dest2\<lparr>dest_concept_dimension := cd,
                        dest_modifier_dimension := md\<rparr>))))))))))"

text \<open>\<^verbatim>\<open>export_patients\<close>: the two demographics cursors are copied; the count of
  the patient rows of the destination is returned.\<close>

definition export_patients :: "nat \<Rightarrow> job \<Rightarrow> cdw \<times> dest_db \<Rightarrow> exn + (nat \<times> dest_db)" where
  "export_patients n j w =
     (let (db, dest) = w in
     bind_res (demographics j db) (\<lambda>(pat_data, enc_data).
     bind_res (copy_in_chunks n pat_data ''patient_dimension''
                 (dest_patient_dimension dest)) (\<lambda>(pd, pat_data').
     bind_res (copy_in_chunks n enc_data ''visit_dimension''
                 (dest_visit_dimension dest)) (\<lambda>(vd, enc_data').
     (case pd of
        None \<Rightarrow> Inl (no_such_table ''patient_dimension'')
      | Some rows \<Rightarrow>
          Inr (length rows, dest\<lparr>dest_patient_dimension := pd,
                                 dest_visit_dimension := vd\<rparr>))))))"

text \<open>
  \<^verbatim>\<open>export_summary\<close>: the view \<^verbatim>\<open>data_summary\<close> is created (the database refuses
  when it exists) and read. The destination is SQLite, whose \<^verbatim>\<open>LIKE\<close> does not
  distinguish the case of ASCII letters. A row of the view: path and label of the
  variable, the number of distinct patients and the number of facts.
\<close>

definition ascii_lower :: "char \<Rightarrow> char" where
  "ascii_lower c =
     (case map_of (zip ''ABCDEFGHIJKLMNOPQRSTUVWXYZ'' ''abcdefghijklmnopqrstuvwxyz'') c of
        None \<Rightarrow> c
      | Some l \<Rightarrow> l)"

definition sqlite_like :: "string \<Rightarrow> string \<Rightarrow> bool" where
  "sqlite_like pattern s = like_match None (map ascii_lower pattern) (map ascii_lower s)"

definition data_summary ::
  "fact_row list \<Rightarrow> term_row list \<Rightarrow> variable_row list \<Rightarrow> (string \<times> string \<times> nat \<times> nat) list" where
  "data_summary facts cds vars =
     (let joined =
            [(f, v). f \<leftarrow> facts,
                     cd \<leftarrow> cds, fst (snd cd) = f_concept_cd f,
                     v \<leftarrow> vars, sqlite_like (v_concept_path v @ ''%'') (fst cd)]
      in [(path, name,
           length (remdups (map (\<lambda>(f, v). f_patient_num f)
                     [(f, v) \<leftarrow> joined. v_concept_path v = path \<and> v_name_char v = name])),
           length [(f, v) \<leftarrow> joined. v_concept_path v = path \<and> v_name_char v = name]).
            (path, name) \<leftarrow> remdups (map (\<lambda>(f, v). (v_concept_path v, v_name_char v)) joined)])"

definition export_summary ::
  "dest_db \<Rightarrow> exn + ((string \<times> string \<times> nat \<times> nat) list \<times> dest_db)" where
  "export_summary dest =
     (if ''data_summary'' \<in> set (dest_views dest) then Inl (already_exists ''data_summary'')
      else
        (case dest_observation_fact dest of
           None \<Rightarrow> Inl (no_such_table ''observation_fact'')
         | Some facts \<Rightarrow>
        (case dest_concept_dimension dest of
           None \<Rightarrow> Inl (no_such_table ''concept_dimension'')
         | Some cds \<Rightarrow>
        (case dest_variable dest of
           None \<Rightarrow> Inl (no_such_table ''variable'')
         | Some vars \<Rightarrow>
             Inr (data_summary facts cds vars,
                  dest\<lparr>dest_views := dest_views dest @ [''data_summary'']\<rparr>)))))"

text \<open>
  \<^verbatim>\<open>DataDest.export\<close>. Of the summary text, the result keeps the content of the
  lines after the heading: the label cut to 40 characters and the two counts.
\<close>

record out =
  out_id :: int
  out_n_patient :: nat
  out_filename :: string
  out_str :: "(string \<times> nat \<times> nat) list"

definition export ::
  "nat \<Rightarrow> string \<Rightarrow> job \<Rightarrow> cdw \<times> dest_db \<Rightarrow> exn + (out \<times> cdw \<times> dest_db)" where
  "export n full_path j w =
     (let (db, dest) = w;
          dest1 = init_tables dest;
          dest2 = export_job dest1 j in
     bind_res (export_data n j (db, dest2)) (\<lambda>(db3, dest3).
     bind_res (export_terms n j (db3, dest3)) (\<lambda>(db4, dest4).
     bind_res (export_patients n j (db4, dest4)) (\<lambda>(pat_qty, dest5).
     bind_res (export_summary dest5) (\<lambda>(rows, dest6).
       Inr (\<lparr>out_id = patient_set j, out_n_patient = pat_qty, out_filename = full_path,
             out_str = [(take 40 name, pat_q, fact_q). (path, name, pat_q, fact_q) \<leftarrow> rows]\<rparr>,
            db4, dest6))))))"

subsection \<open>\<^verbatim>\<open>BuilderApp.__call__\<close>\<close>

text \<open>
  What the entry point returns: \<^verbatim>\<open>['error:', str(ex)]\<close> or
  \<^verbatim>\<open>[json.dumps(out)]\<close>.
\<close>

datatype reply = Error_Reply string | Json_Reply out

text \<open>
  \<open>access\<close> is the capability the application is made with: for a user, the account on
  the source repository and the storage, which gives for a file name the destination
  database and its full path. \<open>build_dataset\<close> is the body of the \<^verbatim>\<open>try\<close>: the
  constructor of the job and the export. The only handler is \<^verbatim>\<open>except IOError\<close>;
  the call of \<open>access\<close> stands before the \<^verbatim>\<open>try\<close>.
\<close>

definition build_dataset ::
  "nat \<Rightarrow> string \<Rightarrow> string \<Rightarrow> string \<Rightarrow> concepts \<Rightarrow> string \<Rightarrow> int \<Rightarrow> cdw \<times> dest_db \<Rightarrow>
   exn + (out \<times> cdw \<times> dest_db)" where
  "build_dataset n full_path username lbl cs fname pset w =
     bind_res (DataExtract username lbl cs pset fname) (\<lambda>j. export n full_path j w)"

definition BuilderApp_call ::
  "nat \<Rightarrow> (string \<Rightarrow> exn + (cdw \<times> (string \<Rightarrow> dest_db \<times> string))) \<Rightarrow>
   string \<Rightarrow> string \<Rightarrow> concepts \<Rightarrow> string \<Rightarrow> int \<Rightarrow> exn + reply" where
  "BuilderApp_call n access username lbl cs fname pset =
     bind_res (access username) (\<lambda>(account, job_storage).
     (let (db, full_path) = job_storage fname in
     (case build_dataset n full_path username lbl cs fname pset (account, db) of
        Inl ex \<Rightarrow>
          (case ex of
             IOError msg \<Rightarrow> Inr (Error_Reply msg)
           | _ \<Rightarrow> Inl ex)
      | Inr (out, w) \<Rightarrow> Inr (Json_Reply out))))"

subsection \<open>\<^verbatim>\<open>send_completion_mail\<close>\<close>

text \<open>
  The section \<^verbatim>\<open>email\<close> of the configuration is \<open>None\<close> when it does not exist;
  reading an option it does not have raises. The result is the mail handed to the
  emailer, if any: a failure of the delivery is caught and logged by the source and
  changes nothing else.
\<close>

record mail =
  mail_sender :: string
  mail_recipients :: "string list"
  mail_subject :: string
  mail_body :: string

definition config_get :: "(string \<times> string) list \<Rightarrow> string \<Rightarrow> exn + string" where
  "config_get cfg k = (case map_of cfg k of None \<Rightarrow> Inl (NoOptionError k) | Some v \<Rightarrow> Inr v)"

definition send_completion_mail ::
  "(string \<times> string) list option \<Rightarrow> string \<Rightarrow> string \<Rightarrow> string \<Rightarrow> string \<Rightarrow> string \<Rightarrow>
   exn + mail option" where
  "send_completion_mail email_config username hostname fname home_dirs summary =
     (case email_config of
        None \<Rightarrow> Inr None
      | Some cfg \<Rightarrow>
          bind_res (config_get cfg ''user_domain'') (\<lambda>domain.
          (let recipient = username @ ''@'' @ domain;
               recipient = ''bos@uthscsa.edu'';
               recipients = [recipient];
               location = home_dirs @ ''/'' @ username;
               body = ''The dataset '' @ fname @ '' is now available on '' @ hostname @
                      '' at '' @ [CHR 0x27] @ location @ [CHR 0x27] @
                      [CHR 0x0A, CHR 0x0A] @ ''====DATA SUMMARY===='' @ [CHR 0x0A] @ summary;
               subject = ''The dataset '' @ [CHR 0x27] @ fname @ [CHR 0x27] @
                         '' is now available'' in
          bind_res (config_get cfg ''sender'') (\<lambda>sender.
            Inr (Some \<lparr>mail_sender = sender, mail_recipients = recipients,
                       mail_subject = subject, mail_body = body\<rparr>)))))"

section \<open>Notions of the specification\<close>

text \<open>
  The words of the specification that the statements below use, as predicates on the
  tables.
\<close>

text \<open>\<open>starts_with s p\<close>: the text \<open>s\<close> begins with \<open>p\<close>.\<close>

definition starts_with :: "string \<Rightarrow> string \<Rightarrow> bool" where
  "starts_with s p = (take (length p) s = p)"

text \<open>
  A bracketed count, in the words of the claim: a space, an opening bracket, a decimal
  digit, any text without a newline, and a closing bracket. \<open>has_count\<close>: a
  bracketed count occurs somewhere in the label. \<open>open_count\<close>: somewhere in the
  label a count is opened (space, opening bracket, digit) and no newline follows in the
  label, so that a closing bracket appended to the label would close it.
\<close>

definition bracketed_count :: "string \<Rightarrow> bool" where
  "bracketed_count t =
     (\<exists>d body. t = '' ['' @ d # body @ '']'' \<and> d \<in> set ''0123456789'' \<and>
        CHR 0x0A \<notin> set body)"

definition has_count :: "string \<Rightarrow> bool" where
  "has_count s = (\<exists>pre t post. s = pre @ t @ post \<and> bracketed_count t)"

definition open_count :: "string \<Rightarrow> bool" where
  "open_count l =
     (\<exists>pre d body. l = pre @ '' ['' @ d # body \<and> d \<in> set ''0123456789'' \<and>
        CHR 0x0A \<notin> set body)"

text \<open>
  \<open>somewhere P s\<close>: \<open>P\<close> holds of the text from some position of \<open>s\<close> on; with
  \<open>opens_here\<close> it decides \<open>open_count\<close> on a given label.
\<close>

fun somewhere :: "(string \<Rightarrow> bool) \<Rightarrow> string \<Rightarrow> bool" where
  "somewhere P [] = P []"
| "somewhere P (c # cs) = (P (c # cs) \<or> somewhere P cs)"

fun opens_here :: "string \<Rightarrow> bool" where
  "opens_here (c1 # c2 # d # cs) =
     (c1 = CHR '' '' \<and> c2 = CHR ''['' \<and> is_digit d \<and> CHR 0x0A \<notin> set cs)"
| "opens_here cs = False"

text \<open>The rows that a call with the given keys and names is to stage.\<close>

definition staged_rows :: "string list \<Rightarrow> string list \<Rightarrow> tmp_row list" where
  "staged_rows keys names =
     [\<lparr>char_param1 = p, char_param2 = name\<rparr>. (p, name) \<leftarrow> zip (keys_to_paths keys) names]"

text \<open>The patients of a patient set, and the fact rows the final selection is to return.\<close>

definition members :: "int \<Rightarrow> cdw \<Rightarrow> int set" where
  "members rid db =
     {pset_patient_num p | p. p \<in> set (qt_patient_set_collection db) \<and>
                               pset_result_instance_id p = rid}"

definition selected_fact :: "int \<Rightarrow> cdw \<Rightarrow> fact_row \<Rightarrow> bool" where
  "selected_fact rid db f =
     (f_concept_cd f \<in> set (query_global_temp db) \<and> f_patient_num f \<in> members rid db)"

definition in_patient_set :: "int \<Rightarrow> cdw \<Rightarrow> int \<Rightarrow> bool" where
  "in_patient_set rid db pn =
     (\<exists>p \<in> set (qt_patient_set_collection db).
        pset_patient_num p = pn \<and> pset_result_instance_id p = rid)"

definition has_patient_row :: "cdw \<Rightarrow> int \<Rightarrow> bool" where
  "has_patient_row db pn = (\<exists>p \<in> set (patient_dimension db). pd_patient_num p = pn)"

definition eligible :: "int \<Rightarrow> cdw \<Rightarrow> int \<Rightarrow> bool" where
  "eligible rid db pn = (in_patient_set rid db pn \<and> has_patient_row db pn)"

text \<open>
  A visit is latest when it has a start date and no visit of the same patient starts
  later; it is chosen when it is latest and no latest visit of the same patient has a
  larger encounter number.
\<close>

definition is_latest :: "cdw \<Rightarrow> vd_row \<Rightarrow> bool" where
  "is_latest db v =
     (\<exists>t. vd_start_date v = Some t \<and>
        (\<forall>v' \<in> set (visit_dimension db). vd_patient_num v' = vd_patient_num v \<longrightarrow>
           (\<forall>t'. vd_start_date v' = Some t' \<longrightarrow> t' \<le> t)))"

definition is_chosen :: "cdw \<Rightarrow> vd_row \<Rightarrow> bool" where
  "is_chosen db v =
     (is_latest db v \<and>
      (\<forall>v' \<in> set (visit_dimension db).
         vd_patient_num v' = vd_patient_num v \<and> is_latest db v' \<longrightarrow>
           vd_encounter_num v' \<le> vd_encounter_num v))"

section \<open>An example repository\<close>

text \<open>
  A small repository, a request and an empty destination, on which the statements below
  are tried. \<open>mk_path\<close> writes a hierarchical path from its segments. Patient 4 is in
  patient set 7 and has a visit, but no row in the patient table; the staging table and
  the code table hold rows of an earlier job.
\<close>

definition mk_path :: "string list \<Rightarrow> string" where
  "mk_path segs = concat (map (\<lambda>s. bs # s) segs) @ [bs]"

definition example_concepts :: concepts where
  "example_concepts =
     [(''names'', [''n1 [2 facts]'']), (''keys'', [bs # bs # ''tk'' @ mk_path [''a'', ''b'']])]"

definition example_cdw :: cdw where
  "example_cdw =
     \<lparr>patient_dimension =
        [\<lparr>pd_patient_num = 1, pd_other = ''p1''\<rparr>,
         \<lparr>pd_patient_num = 2, pd_other = ''p2''\<rparr>,
         \<lparr>pd_patient_num = 3, pd_other = ''p3''\<rparr>],
      visit_dimension =
        [\<lparr>vd_encounter_num = 10, vd_patient_num = 1, vd_start_date = Some 100, vd_other = ''''\<rparr>,
         \<lparr>vd_encounter_num = 11, vd_patient_num = 1, vd_start_date = Some 200, vd_other = ''''\<rparr>,
         \<lparr>vd_encounter_num = 12, vd_patient_num = 1, vd_start_date = Some 200, vd_other = ''''\<rparr>,
         \<lparr>vd_encounter_num = 20, vd_patient_num = 2, vd_start_date = Some 50, vd_other = ''''\<rparr>,
         \<lparr>vd_encounter_num = 21, vd_patient_num = 2, vd_start_date = None, vd_other = ''''\<rparr>,
         \<lparr>vd_encounter_num = 30, vd_patient_num = 3, vd_start_date = Some 300, vd_other = ''''\<rparr>,
         \<lparr>vd_encounter_num = 40, vd_patient_num = 4, vd_start_date = Some 10, vd_other = ''''\<rparr>],
      concept_dimension =
        [\<lparr>cd_concept_path = mk_path [''a'', ''b''], cd_concept_cd = ''C1'', cd_name_char = ''b''\<rparr>,
         \<lparr>cd_concept_path = mk_path [''a'', ''b'', ''c''], cd_concept_cd = ''C2'', cd_name_char = ''c''\<rparr>,
         \<lparr>cd_concept_path = mk_path [''x''], cd_concept_cd = ''C3'', cd_name_char = ''x''\<rparr>],
      modifier_dimension =
        [\<lparr>md_modifier_path = mk_path [''a'', ''b''], md_modifier_cd = ''M1'', md_name_char = ''m1''\<rparr>,
         \<lparr>md_modifier_path = mk_path [''a''], md_modifier_cd = ''M0'', md_name_char = ''m0''\<rparr>],
      observation_fact =
        [\<lparr>f_encounter_num = 10, f_patient_num = 1, f_concept_cd = ''C1'', f_other = ''''\<rparr>,
         \<lparr>f_encounter_num = 11, f_patient_num = 1, f_concept_cd = ''C3'', f_other = ''''\<rparr>,
         \<lparr>f_encounter_num = 20, f_patient_num = 2, f_concept_cd = ''C2'', f_other = ''''\<rparr>,
         \<lparr>f_encounter_num = 30, f_patient_num = 3, f_concept_cd = ''C1'', f_other = ''''\<rparr>],
      qt_patient_set_collection =
        [\<lparr>pset_result_instance_id = 7, pset_patient_num = 1\<rparr>,
         \<lparr>pset_result_instance_id = 7, pset_patient_num = 2\<rparr>,
         \<lparr>pset_result_instance_id = 8, pset_patient_num = 3\<rparr>,
         \<lparr>pset_result_instance_id = 7, pset_patient_num = 4\<rparr>],
      global_temp_fact_param_table = [\<lparr>char_param1 = mk_path [''old''], char_param2 = ''stale''\<rparr>],
      query_global_temp = [''C3''],
      cdw_fault = None\<rparr>"

definition example_dest :: dest_db where
  "example_dest =
     \<lparr>dest_patient_dimension = None, dest_visit_dimension = None,
      dest_concept_dimension = None, dest_modifier_dimension = None,
      dest_observation_fact = None, dest_job = None, dest_variable = None,
      dest_views = []\<rparr>"

definition example_job :: job where
  "example_job = \<lparr>user_id = ''demo'', label = ''Interesting Cohort'',
     concepts = example_concepts, patient_set = 7, filename = ''cohort''\<rparr>"

text \<open>
  The example repository with the concept of the request staged, a storage that gives the
  empty destination for every file name, and the access to a given repository.
\<close>

definition example_staged :: cdw where
  "example_staged =
     example_cdw\<lparr>global_temp_fact_param_table :=
       [\<lparr>char_param1 = mk_path [''a'', ''b''], char_param2 = ''n1 [2 facts]''\<rparr>]\<rparr>"

definition example_access :: "cdw \<Rightarrow> string \<Rightarrow> exn + (cdw \<times> (string \<Rightarrow> dest_db \<times> string))" where
  "example_access db username =
     Inr (db, \<lambda>fname. (example_dest, ''/home/'' @ username @ ''/'' @ fname @ ''.db''))"

section \<open>Path resolution\<close>

lemma split_str_not_Nil: "split_str sep s \<noteq> []"
  by (induction s) (auto split: list.splits)

lemma split_str_free:
  "sep \<notin> set a \<Longrightarrow> split_str sep (a @ sep # r) = a # split_str sep r"
  by (induction a) (auto split: list.splits)

lemma split_str_free_end:
  "sep \<notin> set a \<Longrightarrow> split_str sep a = [a]"
  by (induction a) (auto split: list.splits)

lemma join_split_str: "join_str [sep] (split_str sep s) = s"
proof (induction s)
  case Nil
  show ?case by simp
next
  case (Cons c cs)
  obtain x xs where sp: "split_str sep cs = x # xs"
    using split_str_not_Nil [of sep cs] by (cases "split_str sep cs") auto
  with Cons show ?case by (cases xs) auto
qed

lemma split_join_str:
  "segs \<noteq> [] \<Longrightarrow> \<forall>s \<in> set segs. sep \<notin> set s \<Longrightarrow>
   split_str sep (join_str [sep] segs) = segs"
proof (induction segs)
  case Nil then show ?case by simp
next
  case (Cons x xs)
  show ?case
  proof (cases xs)
    case Nil
    with Cons.prems show ?thesis by (simp add: split_str_free_end)
  next
    case (Cons y ys)
    with Cons.IH Cons.prems show ?thesis
      using split_str_free [of sep x "join_str [sep] (y # ys)"] by simp
  qed
qed

text \<open>
  Claim C4. For every sequence of hierarchical keys whose first three segments form the
  table-access prefix, \<open>keys_to_paths\<close> returns for each key the remaining segments
  rejoined in order with the same separator and prefixed with the separator; the result
  has one path per key, and the empty sequence gives the empty sequence. A key is given
  here by its segments (none of which holds the separator), and, in the last part, as a
  text: three separator-free segments, each followed by the separator, and the rest, of
  which the path is the rest behind one separator.
\<close>

theorem keys_to_paths_strips_prefix:
  "keys_to_paths [] = [] \<and>
   length (keys_to_paths keys) = length keys \<and>
   ((\<forall>segs \<in> set segss. 3 \<le> length segs \<and> (\<forall>s \<in> set segs. bs \<notin> set s)) \<longrightarrow>
      keys_to_paths (map (join_str [bs]) segss) =
      map (\<lambda>segs. bs # join_str [bs] (drop 3 segs)) segss) \<and>
   (bs \<notin> set p0 \<and> bs \<notin> set p1 \<and> bs \<notin> set p2 \<longrightarrow>
      keys_to_paths [p0 @ bs # p1 @ bs # p2 @ bs # rest] = [bs # rest])"
proof (intro conjI impI)
  show "keys_to_paths [] = []" by (simp add: keys_to_paths_def)
  show "length (keys_to_paths keys) = length keys" by (simp add: keys_to_paths_def)
next
  assume a: "\<forall>segs \<in> set segss. 3 \<le> length segs \<and> (\<forall>s \<in> set segs. bs \<notin> set s)"
  have "split_str bs (join_str [bs] segs) = segs" if "segs \<in> set segss" for segs
  proof -
    from a that have "segs \<noteq> []" "\<forall>s \<in> set segs. bs \<notin> set s" by auto
    then show ?thesis by (rule split_join_str)
  qed
  then show "keys_to_paths (map (join_str [bs]) segss) =
      map (\<lambda>segs. bs # join_str [bs] (drop 3 segs)) segss"
    by (simp add: keys_to_paths_def)
next
  assume "bs \<notin> set p0 \<and> bs \<notin> set p1 \<and> bs \<notin> set p2"
  then show "keys_to_paths [p0 @ bs # p1 @ bs # p2 @ bs # rest] = [bs # rest]"
    by (simp add: keys_to_paths_def split_str_free join_split_str)
qed

theorem keys_to_paths_strips_prefix_witness:
  "keys_to_paths [[bs, bs] @ ''t1'' @ [bs] @ ''a'' @ [bs] @ ''b'' @ [bs],
                  [bs, bs] @ ''t2'' @ [bs] @ ''c'' @ [bs] @ ''d'' @ [bs]] =
     [[bs] @ ''a'' @ [bs] @ ''b'' @ [bs], [bs] @ ''c'' @ [bs] @ ''d'' @ [bs]] \<and>
   (bs \<notin> set [] \<and> bs \<notin> set [] \<and> bs \<notin> set ''i2b2'') \<and>
   keys_to_paths [[bs, bs] @ ''i2b2'' @ [bs] @ ''i2b2'' @ [bs] @ ''Demographics'' @ [bs]] =
     [[bs] @ ''i2b2'' @ [bs] @ ''Demographics'' @ [bs]]"
proof -
  have h: "\<forall>segs \<in> set [[[], [], ''t1'', ''a'', ''b'', []], [[], [], ''t2'', ''c'', ''d'', []]].
      3 \<le> length segs \<and> (\<forall>s \<in> set segs. bs \<notin> set s)"
    by (simp add: bs_def)
  show ?thesis
    using h keys_to_paths_strips_prefix
      [of "[]" "[[[], [], ''t1'', ''a'', ''b'', []], [[], [], ''t2'', ''c'', ''d'', []]]"
          "[]" "[]" "''i2b2''" "''i2b2'' @ [bs] @ ''Demographics'' @ [bs]"]
    by (simp add: bs_def)
qed

section \<open>Label normalisation\<close>

lemma somewhere_iff: "somewhere P s \<longleftrightarrow> (\<exists>pre t. s = pre @ t \<and> P t)"
proof (induction s)
  case Nil
  show ?case by simp
next
  case (Cons c cs)
  show ?case
  proof
    assume "somewhere P (c # cs)"
    then consider "P (c # cs)" | "somewhere P cs" by auto
    then show "\<exists>pre t. c # cs = pre @ t \<and> P t"
    proof cases
      case 1
      then have "c # cs = [] @ (c # cs) \<and> P (c # cs)" by simp
      then show ?thesis by blast
    next
      case 2
      with Cons obtain pre t where "cs = pre @ t" "P t" by blast
      then have "c # cs = (c # pre) @ t \<and> P t" by simp
      then show ?thesis by blast
    qed
  next
    assume "\<exists>pre t. c # cs = pre @ t \<and> P t"
    then obtain pre t where e: "c # cs = pre @ t" and p: "P t" by blast
    show "somewhere P (c # cs)"
    proof (cases pre)
      case Nil
      with e have "t = c # cs" by simp
      with p show ?thesis by simp
    next
      case (Cons a pre')
      with e have "cs = pre' @ t" by simp
      with p Cons.IH show ?thesis by auto
    qed
  qed
qed

lemma digit_not_special: "is_digit c \<Longrightarrow> c \<noteq> CHR 0x0A \<and> c \<noteq> CHR '']''"
  by (auto simp: is_digit_def)

lemma match_digits_any: "match_digits_bracket s = match_any_bracket s"
proof (induction s)
  case Nil
  show ?case by simp
next
  case (Cons c cs)
  then show ?case using digit_not_special [of c] by (auto split: option.splits)
qed

lemma match_any_bracket_Some:
  "match_any_bracket s = Some r \<Longrightarrow> \<exists>body. s = body @ '']'' @ r \<and> CHR 0x0A \<notin> set body"
proof (induction s)
  case Nil
  then show ?case by simp
next
  case (Cons c cs)
  show ?case
  proof (cases "c \<noteq> CHR 0x0A \<and> match_any_bracket cs = Some r")
    case True
    with Cons.IH obtain body where "cs = body @ '']'' @ r" "CHR 0x0A \<notin> set body" by blast
    with True have "c # cs = (c # body) @ '']'' @ r \<and> CHR 0x0A \<notin> set (c # body)" by auto
    then show ?thesis by blast
  next
    case False
    with Cons.prems have "c = CHR '']'' \<and> r = cs"
      by (auto split: option.splits if_splits)
    then have "c # cs = [] @ '']'' @ r \<and> CHR 0x0A \<notin> set []" by simp
    then show ?thesis by blast
  qed
qed

lemma match_any_bracket_closes:
  "CHR 0x0A \<notin> set body \<Longrightarrow> match_any_bracket (body @ '']'' @ r) \<noteq> None"
  by (induction body) (auto split: option.splits)

lemma match_count_iff:
  "match_count t \<noteq> None \<longleftrightarrow> (\<exists>tc post. t = tc @ post \<and> bracketed_count tc)"
proof
  assume "match_count t \<noteq> None"
  then obtain r where r: "match_count t = Some r" by auto
  then obtain d cs where t: "t = CHR '' '' # CHR ''['' # d # cs" and d: "is_digit d"
      and m: "match_digits_bracket cs = Some r"
    by (cases t rule: match_count.cases) (auto split: if_splits)
  from m obtain body where "cs = body @ '']'' @ r" "CHR 0x0A \<notin> set body"
    using match_any_bracket_Some by (auto simp: match_digits_any)
  with t d have "t = ('' ['' @ d # body @ '']'') @ r \<and> bracketed_count ('' ['' @ d # body @ '']'')"
    unfolding bracketed_count_def is_digit_def by auto
  then show "\<exists>tc post. t = tc @ post \<and> bracketed_count tc" by blast
next
  assume "\<exists>tc post. t = tc @ post \<and> bracketed_count tc"
  then obtain d body post where t: "t = ('' ['' @ d # body @ '']'') @ post"
      and d: "d \<in> set ''0123456789''" and b: "CHR 0x0A \<notin> set body"
    unfolding bracketed_count_def by blast
  from b have "match_any_bracket (body @ '']'' @ post) \<noteq> None"
    by (rule match_any_bracket_closes)
  with t d show "match_count t \<noteq> None"
    by (simp add: is_digit_def match_digits_any)
qed

lemma has_count_iff: "has_count s \<longleftrightarrow> somewhere (\<lambda>t. match_count t \<noteq> None) s"
  unfolding somewhere_iff match_count_iff has_count_def by auto

lemma opens_here_iff:
  "opens_here t \<longleftrightarrow>
     (\<exists>d body. t = '' ['' @ d # body \<and> d \<in> set ''0123456789'' \<and> CHR 0x0A \<notin> set body)"
  by (cases t rule: opens_here.cases) (auto simp: is_digit_def)

lemma open_count_iff: "open_count l \<longleftrightarrow> somewhere opens_here l"
  unfolding somewhere_iff opens_here_iff open_count_def by auto

lemma strip_counts_no_match:
  "\<not> somewhere (\<lambda>t. match_count t \<noteq> None) s \<Longrightarrow> strip_counts s = s"
  by (induction s) (auto split: option.splits)

lemma length_strip_counts: "length (strip_counts s) \<le> length s"
proof (induction s rule: strip_counts.induct)
  case 1
  show ?case by simp
next
  case (2 c cs)
  show ?case
  proof (cases "match_count (c # cs)")
    case None
    with 2 show ?thesis by simp
  next
    case (Some r)
    with 2 match_count_length [of "c # cs" r] show ?thesis by simp
  qed
qed

lemma strip_counts_shorter:
  "somewhere (\<lambda>t. match_count t \<noteq> None) s \<Longrightarrow> length (strip_counts s) < length s"
proof (induction s)
  case Nil
  then show ?case by simp
next
  case (Cons c cs)
  show ?case
  proof (cases "match_count (c # cs)")
    case None
    with Cons show ?thesis by simp
  next
    case (Some r)
    with length_strip_counts [of r] match_count_length [of "c # cs" r] show ?thesis by simp
  qed
qed

lemma strip_counts_unchanged_iff: "strip_counts s = s \<longleftrightarrow> \<not> has_count s"
proof
  assume e: "strip_counts s = s"
  show "\<not> has_count s"
  proof
    assume "has_count s"
    then have "length (strip_counts s) < length s"
      unfolding has_count_iff by (rule strip_counts_shorter)
    with e show False by simp
  qed
next
  assume "\<not> has_count s"
  then show "strip_counts s = s" unfolding has_count_iff by (rule strip_counts_no_match)
qed

lemma match_any_bracket_first_line:
  "CHR 0x0A \<in> set x \<Longrightarrow>
   match_any_bracket (x @ y) = None \<longleftrightarrow> match_any_bracket x = None"
  by (induction x) (auto split: option.splits)

lemma match_any_bracket_end:
  "CHR 0x0A \<notin> set body \<Longrightarrow> match_any_bracket (body @ '']'') = Some []"
  by (induction body) (auto split: option.splits)

lemma match_count_in_label:
  assumes "match_count (l @ CHR '' '' # r) \<noteq> None" "l \<noteq> []"
  shows "match_count l \<noteq> None \<or> opens_here l"
proof -
  from assms(2) obtain c l1 where l: "l = c # l1" by (cases l) auto
  show ?thesis
  proof (cases l1)
    case Nil
    with l assms(1) show ?thesis by (cases r) (auto split: if_splits)
  next
    case (Cons c2 l2)
    note l1 = this
    show ?thesis
    proof (cases l2)
      case Nil
      with l l1 assms(1) show ?thesis by (auto simp: is_digit_def split: if_splits)
    next
      case (Cons d l3)
      with l l1 assms(1) have h: "c = CHR '' ''" "c2 = CHR ''[''" "is_digit d"
        and m: "match_any_bracket (l3 @ CHR '' '' # r) \<noteq> None"
        by (auto simp: match_digits_any split: if_splits)
      show ?thesis
      proof (cases "CHR 0x0A \<in> set l3")
        case True
        with m have "match_any_bracket l3 \<noteq> None"
          using match_any_bracket_first_line [of l3 "CHR '' '' # r"] by simp
        with h l l1 Cons show ?thesis by (simp add: match_digits_any)
      next
        case False
        with h l l1 Cons show ?thesis by simp
      qed
    qed
  qed
qed

lemma strip_counts_suffix:
  assumes "d \<in> set ''0123456789''" "CHR 0x0A \<notin> set body"
  shows "\<not> somewhere (\<lambda>t. match_count t \<noteq> None) l \<Longrightarrow> \<not> somewhere opens_here l \<Longrightarrow>
         strip_counts (l @ '' ['' @ d # body @ '']'') = l"
proof (induction l)
  case Nil
  from assms show ?case
    by (simp add: match_digits_any match_any_bracket_end is_digit_def)
next
  case (Cons c l)
  from Cons.prems have n: "\<not> (match_count (c # l) \<noteq> None \<or> opens_here (c # l))"
    and r: "\<not> somewhere (\<lambda>t. match_count t \<noteq> None) l" "\<not> somewhere opens_here l"
    by auto
  have "match_count ((c # l) @ CHR '' '' # (''['' @ d # body @ '']'')) = None"
  proof (rule ccontr)
    assume "match_count ((c # l) @ CHR '' '' # (''['' @ d # body @ '']'')) \<noteq> None"
    then have "match_count (c # l) \<noteq> None \<or> opens_here (c # l)"
      by (rule match_count_in_label) simp
    with n show False by blast
  qed
  with Cons.IH [OF r] show ?case by simp
qed

lemma match_any_bracket_greedy:
  "match_any_bracket x = Some r \<Longrightarrow> match_any_bracket r = None"
  by (induction x) (auto split: option.splits if_splits)

lemma match_count_Some:
  assumes "match_count s = Some r"
  shows "\<exists>m. s = m @ r \<and> m \<noteq> [] \<and> match_any_bracket r = None"
proof -
  from assms obtain d cs where t: "s = CHR '' '' # CHR ''['' # d # cs"
      and m: "match_any_bracket cs = Some r"
    by (cases s rule: match_count.cases) (auto simp: match_digits_any split: if_splits)
  from m obtain body where "cs = body @ '']'' @ r"
    using match_any_bracket_Some by blast
  with t have "s = ('' ['' @ d # body @ '']'') @ r \<and> '' ['' @ d # body @ '']'' \<noteq> []" by simp
  with match_any_bracket_greedy [OF m] show ?thesis by blast
qed

lemma closing_suffix:
  assumes "w @ '']'' = us @ r" "r \<noteq> []" "CHR 0x0A \<notin> set w"
  shows "match_any_bracket r \<noteq> None"
proof -
  from assms(2) have r: "r = butlast r @ [last r]" by simp
  from assms(1,2) have "last r = CHR '']''"
    by (metis last_appendR last_snoc)
  moreover from assms(1,2) have "w = us @ butlast r"
    by (metis butlast_append butlast_snoc)
  with assms(3) have "CHR 0x0A \<notin> set (butlast r)" by simp
  then have "match_any_bracket (butlast r @ '']'') = Some []"
    by (rule match_any_bracket_end)
  ultimately show ?thesis using r by (metis option.distinct(1))
qed

lemma remainder_cases:
  assumes "match_count (x @ w @ '']'') = Some r" "CHR 0x0A \<notin> set w"
  shows "r = [] \<or> (\<exists>m u. m \<noteq> [] \<and> x = m @ u \<and> r = u @ w @ '']'')"
proof -
  from match_count_Some [OF assms(1)] obtain m
    where e: "x @ (w @ '']'') = m @ r" and m: "m \<noteq> []" and g: "match_any_bracket r = None"
    by auto
  from e obtain us where "(x = m @ us \<and> us @ (w @ '']'') = r) \<or>
      (x @ us = m \<and> w @ '']'' = us @ r)"
    unfolding append_eq_append_conv2 by blast
  then show ?thesis
  proof
    assume "x = m @ us \<and> us @ (w @ '']'') = r"
    with m show ?thesis by blast
  next
    assume c: "x @ us = m \<and> w @ '']'' = us @ r"
    show ?thesis
    proof (cases "r = []")
      case True
      then show ?thesis by simp
    next
      case False
      with c assms(2) have "match_any_bracket r \<noteq> None"
        by (intro closing_suffix [of w us r]) simp_all
      with g show ?thesis by simp
    qed
  qed
qed

lemma strip_counts_drops_suffix:
  assumes "d \<in> set ''0123456789''" "CHR 0x0A \<notin> set body"
  shows "length (strip_counts (x @ '' ['' @ d # body @ '']'')) \<le> length x"
proof (induction x rule: length_induct)
  case (1 x)
  let ?w = "'' ['' @ d # body"
  from assms have w: "CHR 0x0A \<notin> set ?w" by auto
  have s: "x @ '' ['' @ d # body @ '']'' = x @ ?w @ '']''" by simp
  show ?case
  proof (cases x)
    case Nil
    with assms show ?thesis
      by (simp add: match_digits_any match_any_bracket_end is_digit_def)
  next
    case (Cons c x')
    show ?thesis
    proof (cases "match_count (x @ ?w @ '']'')")
      case None
      have "length x' < length x" using Cons by simp
      with 1 have "length (strip_counts (x' @ '' ['' @ d # body @ '']'')) \<le> length x'"
        by blast
      with None Cons show ?thesis by simp
    next
      case (Some r)
      from Some Cons have st: "strip_counts (x @ ?w @ '']'') = strip_counts r" by simp
      from remainder_cases [OF Some w] show ?thesis
      proof
        assume "r = []"
        with st show ?thesis unfolding s by simp
      next
        assume "\<exists>m u. m \<noteq> [] \<and> x = m @ u \<and> r = u @ ?w @ '']''"
        then obtain m u where mu: "m \<noteq> []" "x = m @ u" "r = u @ ?w @ '']''" by blast
        then have "length u < length x" by simp
        with 1 have "length (strip_counts (u @ '' ['' @ d # body @ '']'')) \<le> length u"
          by blast
        with mu st show ?thesis unfolding s by simp
      qed
    qed
  qed
qed

lemma match_count_append:
  "match_count l \<noteq> None \<Longrightarrow> match_count (l @ y) \<noteq> None"
proof -
  assume "match_count l \<noteq> None"
  then obtain tc post where "l = tc @ post" "bracketed_count tc"
    unfolding match_count_iff by blast
  then have "l @ y = tc @ (post @ y) \<and> bracketed_count tc" by simp
  then show ?thesis unfolding match_count_iff by blast
qed

lemma opens_here_match:
  assumes "opens_here l" "CHR 0x0A \<notin> set w"
  shows "match_count (l @ w @ '']'') = Some []"
proof -
  from assms(1) obtain d l3 where l: "l = CHR '' '' # CHR ''['' # d # l3" and d: "is_digit d"
      and n: "CHR 0x0A \<notin> set l3"
    by (cases l rule: opens_here.cases) auto
  from n assms(2) have "match_any_bracket ((l3 @ w) @ '']'') = Some []"
    by (intro match_any_bracket_end) simp
  with l d show ?thesis by (simp add: match_digits_any)
qed

lemma strip_counts_more_removed:
  assumes "d \<in> set ''0123456789''" "CHR 0x0A \<notin> set body"
  shows "somewhere (\<lambda>t. match_count t \<noteq> None) l \<or> somewhere opens_here l \<Longrightarrow>
         length (strip_counts (l @ '' ['' @ d # body @ '']'')) < length l"
proof (induction l)
  case Nil
  then show ?case by simp
next
  case (Cons c l)
  let ?w = "'' ['' @ d # body"
  from assms have w: "CHR 0x0A \<notin> set ?w" by auto
  have s: "\<And>x. x @ '' ['' @ d # body @ '']'' = x @ ?w @ '']''" by simp
  show ?case
  proof (cases "match_count ((c # l) @ ?w @ '']'')")
    case None
    have "\<not> match_count (c # l) \<noteq> None"
    proof
      assume "match_count (c # l) \<noteq> None"
      then have "match_count ((c # l) @ ?w @ '']'') \<noteq> None" by (rule match_count_append)
      with None show False by simp
    qed
    moreover have "\<not> opens_here (c # l)"
      using None opens_here_match [of "c # l" ?w] w by auto
    ultimately have "somewhere (\<lambda>t. match_count t \<noteq> None) l \<or> somewhere opens_here l"
      using Cons.prems by auto
    with Cons.IH have "length (strip_counts (l @ '' ['' @ d # body @ '']'')) < length l" .
    with None show ?thesis by simp
  next
    case (Some r)
    then have st: "strip_counts ((c # l) @ ?w @ '']'') = strip_counts r" by simp
    from remainder_cases [OF Some w] show ?thesis
    proof
      assume "r = []"
      with st show ?thesis unfolding s by simp
    next
      assume "\<exists>m u. m \<noteq> [] \<and> c # l = m @ u \<and> r = u @ ?w @ '']''"
      then obtain m u where mu: "m \<noteq> []" "c # l = m @ u" "r = u @ ?w @ '']''" by blast
      from mu(1) have "0 < length m" by simp
      with mu(2) have lu: "length u < length (c # l)" by simp
      have "length (strip_counts (u @ '' ['' @ d # body @ '']'')) \<le> length u"
        using assms by (rule strip_counts_drops_suffix)
      with lu have "length (strip_counts (u @ '' ['' @ d # body @ '']'')) < length (c # l)"
        by simp
      moreover from st mu(3) have "strip_counts ((c # l) @ '' ['' @ d # body @ '']'') =
          strip_counts (u @ '' ['' @ d # body @ '']'')" by simp
      ultimately show ?thesis by simp
    qed
  qed
qed

lemma strip_counts_suffix_iff:
  assumes "d \<in> set ''0123456789''" "CHR 0x0A \<notin> set body"
  shows "strip_counts (l @ '' ['' @ d # body @ '']'') = l \<longleftrightarrow>
         \<not> has_count l \<and> \<not> open_count l"
proof
  assume e: "strip_counts (l @ '' ['' @ d # body @ '']'') = l"
  show "\<not> has_count l \<and> \<not> open_count l"
  proof (rule ccontr)
    assume "\<not> (\<not> has_count l \<and> \<not> open_count l)"
    then have "somewhere (\<lambda>t. match_count t \<noteq> None) l \<or> somewhere opens_here l"
      unfolding has_count_iff open_count_iff by blast
    then have "length (strip_counts (l @ '' ['' @ d # body @ '']'')) < length l"
      using assms by (intro strip_counts_more_removed)
    with e show False by simp
  qed
next
  assume "\<not> has_count l \<and> \<not> open_count l"
  then show "strip_counts (l @ '' ['' @ d # body @ '']'') = l"
    unfolding has_count_iff open_count_iff
    using assms by (intro strip_counts_suffix) simp_all
qed

text \<open>
  Claim C9, amended. For a label followed by a trailing bracketed count (a space, an
  opening bracket, a decimal digit, any text without a newline, a closing bracket),
  \<open>strip_counts\<close> returns the label exactly when the label holds no bracketed count
  and no count that is opened and not followed by a newline (so
  \<^verbatim>\<open>broken toe [200 facts]\<close> is mapped to \<^verbatim>\<open>broken toe\<close>). And it returns a
  label unchanged exactly when no bracketed count occurs anywhere in it.
\<close>

theorem strip_counts_removes_count:
  "(d \<in> set ''0123456789'' \<and> CHR 0x0A \<notin> set body \<longrightarrow>
      (strip_counts (l @ '' ['' @ d # body @ '']'') = l \<longleftrightarrow>
       \<not> has_count l \<and> \<not> open_count l)) \<and>
   (strip_counts s = s \<longleftrightarrow> \<not> has_count s)"
  using strip_counts_suffix_iff [of d body l] strip_counts_unchanged_iff [of s] by blast

theorem strip_counts_removes_count_witness:
  "\<not> has_count ''broken toe'' \<and> \<not> open_count ''broken toe'' \<and>
   strip_counts ''broken toe [200 facts]'' = ''broken toe'' \<and>
   \<not> has_count ''Weight [kg]'' \<and> \<not> open_count ''Weight [kg]'' \<and>
   strip_counts ''Weight [kg] [200 facts]'' = ''Weight [kg]'' \<and>
   \<not> has_count ''broken [toe]'' \<and> strip_counts ''broken [toe]'' = ''broken [toe]'' \<and>
   has_count ''a [1] b'' \<and> strip_counts ''a [1] b'' \<noteq> ''a [1] b''"
proof -
  have h: "\<not> has_count ''broken toe'' \<and> \<not> open_count ''broken toe'' \<and>
      \<not> has_count ''Weight [kg]'' \<and> \<not> open_count ''Weight [kg]'' \<and>
      \<not> has_count ''broken [toe]'' \<and> has_count ''a [1] b''"
    unfolding has_count_iff open_count_iff by (simp add: is_digit_def)
  have d: "CHR ''2'' \<in> set ''0123456789'' \<and> CHR 0x0A \<notin> set ''00 facts''" by simp
  from h d strip_counts_removes_count [of "CHR ''2''" "''00 facts''" "''broken toe''" "''broken [toe]''"]
    strip_counts_removes_count [of "CHR ''2''" "''00 facts''" "''Weight [kg]''" "''a [1] b''"]
  show ?thesis by simp
qed

text \<open>
  A count opened in the label and closed by the bracket of the suffix is removed with
  the suffix.
\<close>

lemma strip_counts_open_count:
  "open_count ''a [1 b'' \<and> \<not> has_count ''a [1 b'' \<and> strip_counts ''a [1 b [2 c]'' = ''a''"
  unfolding has_count_iff open_count_iff by (simp add: is_digit_def)

text \<open>
  Claim C9 as stated fails: the label \<^verbatim>\<open>a [1] b\<close> does not end with a bracket, so it
  has no bracketed suffix, and it is not returned unchanged.
\<close>

theorem strip_counts_inner_count:
  "last ''a [1] b'' \<noteq> CHR '']'' \<and> strip_counts ''a [1] b'' = ''a b''"
  by (simp add: is_digit_def)

section \<open>Completion mail\<close>

text \<open>
  Claim C10. For every user name and every email configuration, a mail that
  \<open>send_completion_mail\<close> hands to the emailer has exactly the recipient list
  \<^verbatim>\<open>['bos@uthscsa.edu']\<close>, whatever the user name and the configured domain are; and
  when the section exists and has the two options, such a mail is composed.
\<close>

theorem send_completion_mail_recipient:
  "(send_completion_mail email_config username hostname fname home_dirs summary = Inr (Some m) \<longrightarrow>
      mail_recipients m = [''bos@uthscsa.edu'']) \<and>
   (email_config = Some cfg \<and> map_of cfg ''user_domain'' = Some domain \<and>
    map_of cfg ''sender'' = Some sender \<longrightarrow>
      (\<exists>m. send_completion_mail email_config username hostname fname home_dirs summary
             = Inr (Some m) \<and>
           mail_recipients m = [''bos@uthscsa.edu''] \<and> mail_sender m = sender))"
  by (auto simp: send_completion_mail_def config_get_def bind_res_def Let_def
           split: option.splits)

theorem send_completion_mail_recipient_witness:
  "send_completion_mail (Some [(''user_domain'', ''kumc.edu''), (''sender'', ''nobody@kumc.edu'')])
      ''somebody'' ''mock_host'' ''data.db'' ''/home'' ''some summary''
   = Inr (Some \<lparr>mail_sender = ''nobody@kumc.edu'', mail_recipients = [''bos@uthscsa.edu''],
      mail_subject = ''The dataset '' @ [CHR 0x27] @ ''data.db'' @ [CHR 0x27] @ '' is now available'',
      mail_body = ''The dataset data.db is now available on mock_host at '' @ [CHR 0x27]
         @ ''/home/somebody'' @ [CHR 0x27] @ [CHR 0x0A, CHR 0x0A] @ ''====DATA SUMMARY====''
         @ [CHR 0x0A] @ ''some summary''\<rparr>) \<and>
   mail_recipients \<lparr>mail_sender = ''nobody@kumc.edu'', mail_recipients = [''bos@uthscsa.edu''],
      mail_subject = ''The dataset '' @ [CHR 0x27] @ ''data.db'' @ [CHR 0x27] @ '' is now available'',
      mail_body = ''The dataset data.db is now available on mock_host at '' @ [CHR 0x27]
         @ ''/home/somebody'' @ [CHR 0x27] @ [CHR 0x0A, CHR 0x0A] @ ''====DATA SUMMARY====''
         @ [CHR 0x0A] @ ''some summary''\<rparr> = [''bos@uthscsa.edu'']"
  using send_completion_mail_recipient
    [of "Some [(''user_domain'', ''kumc.edu''), (''sender'', ''nobody@kumc.edu'')]"
        "''somebody''" "''mock_host''" "''data.db''" "''/home''" "''some summary''"
        _ "[(''user_domain'', ''kumc.edu''), (''sender'', ''nobody@kumc.edu'')]"
        "''kumc.edu''" "''nobody@kumc.edu''"]
  by (simp add: send_completion_mail_def config_get_def bind_res_def Let_def)

section \<open>Staging\<close>

lemma save_concepts_rows:
  "map_of cs ''names'' = Some names \<Longrightarrow> map_of cs ''keys'' = Some keys \<Longrightarrow>
   save_concepts cs = Inr (staged_rows keys names)"
  by (simp add: save_concepts_def getitem_def bind_res_def staged_rows_def)

text \<open>
  Claim C3. For every concept list, the empty one included, and whatever the staging
  table held before: when \<open>term_info\<close> returns, the staging table holds exactly the
  rows that \<open>save_concepts\<close> computed for this call; and on a connection that raises
  nothing, for concepts with names and keys, it does return, with the staging table
  holding the (path, name) rows of this call. The table is cleared in every case and
  rows are inserted only when there is one.
\<close>

theorem term_info_stages_current_rows:
  "(term_info j db = Inr (res, db') \<longrightarrow>
      save_concepts (concepts j) = Inr (global_temp_fact_param_table db')) \<and>
   (map_of (concepts j) ''names'' = Some names \<and> map_of (concepts j) ''keys'' = Some keys \<and>
    cdw_fault db = None \<longrightarrow>
      (\<exists>res db'. term_info j db = Inr (res, db') \<and>
         global_temp_fact_param_table db' = staged_rows keys names))"
proof (intro conjI impI)
  assume r: "term_info j db = Inr (res, db')"
  show "save_concepts (concepts j) = Inr (global_temp_fact_param_table db')"
  proof (cases "save_concepts (concepts j)")
    case (Inl e)
    with r show ?thesis by (simp add: term_info_def bind_res_def)
  next
    case (Inr rows)
    show ?thesis
    proof (cases "cdw_fault db")
      case (Some e)
      with r Inr show ?thesis
        by (simp add: term_info_def bind_res_def execute_update_def)
    next
      case None
      have "term_info j db =
         (let (q_cd, q_md) = term_query global_temp_fact_param_table (CHR ''|'');
              db2 = db\<lparr>global_temp_fact_param_table := rows\<rparr> in
          Inr ((q_cd db2, q_md db2), db2))"
        using Inr None unfolding term_info_def
        by (cases rows)
           (simp_all add: bind_res_def execute_update_def execute_select_def
              tmp_delete_def tmp_insert_def Let_def split: prod.splits)
      with r Inr show ?thesis by (auto simp: Let_def split: prod.splits)
    qed
  qed
next
  assume a: "map_of (concepts j) ''names'' = Some names \<and> map_of (concepts j) ''keys'' = Some keys \<and>
    cdw_fault db = None"
  then have s: "save_concepts (concepts j) = Inr (staged_rows keys names)"
    by (simp add: save_concepts_rows)
  have "term_info j db =
         (let (q_cd, q_md) = term_query global_temp_fact_param_table (CHR ''|'');
              db2 = db\<lparr>global_temp_fact_param_table := staged_rows keys names\<rparr> in
          Inr ((q_cd db2, q_md db2), db2))"
    using s a unfolding term_info_def
    by (cases "staged_rows keys names")
       (simp_all add: bind_res_def execute_update_def execute_select_def
          tmp_delete_def tmp_insert_def Let_def split: prod.splits)
  then show "\<exists>res db'. term_info j db = Inr (res, db') \<and>
         global_temp_fact_param_table db' = staged_rows keys names"
    by (auto simp: Let_def split: prod.splits)
qed

theorem term_info_stages_current_rows_witness:
  "map_of (concepts example_job) ''names'' = Some [''n1 [2 facts]''] \<and>
   map_of (concepts example_job) ''keys'' = Some [bs # bs # ''tk'' @ mk_path [''a'', ''b'']] \<and>
   cdw_fault example_cdw = None \<and>
   global_temp_fact_param_table example_cdw =
     [\<lparr>char_param1 = mk_path [''old''], char_param2 = ''stale''\<rparr>] \<and>
   (\<exists>res db'. term_info example_job example_cdw = Inr (res, db') \<and>
      global_temp_fact_param_table db' =
        [\<lparr>char_param1 = mk_path [''a'', ''b''], char_param2 = ''n1 [2 facts]''\<rparr>] \<and>
      save_concepts (concepts example_job) = Inr (global_temp_fact_param_table db'))"
proof -
  have h: "map_of (concepts example_job) ''names'' = Some [''n1 [2 facts]''] \<and>
      map_of (concepts example_job) ''keys'' = Some [bs # bs # ''tk'' @ mk_path [''a'', ''b'']] \<and>
      cdw_fault example_cdw = None"
    by (simp add: example_job_def example_concepts_def example_cdw_def)
  have old: "global_temp_fact_param_table example_cdw =
     [\<lparr>char_param1 = mk_path [''old''], char_param2 = ''stale''\<rparr>]"
    by (simp add: example_cdw_def)
  have k: "staged_rows [bs # bs # ''tk'' @ mk_path [''a'', ''b'']] [''n1 [2 facts]''] =
      [\<lparr>char_param1 = mk_path [''a'', ''b''], char_param2 = ''n1 [2 facts]''\<rparr>]"
    by (simp add: staged_rows_def keys_to_paths_def mk_path_def bs_def)
  from h term_info_stages_current_rows
         [of example_job example_cdw "([], [])" example_cdw "[''n1 [2 facts]'']"
             "[bs # bs # ''tk'' @ mk_path [''a'', ''b'']]"]
  obtain res db' where r: "term_info example_job example_cdw = Inr (res, db')"
    and g: "global_temp_fact_param_table db' =
        [\<lparr>char_param1 = mk_path [''a'', ''b''], char_param2 = ''n1 [2 facts]''\<rparr>]"
    unfolding k by blast
  from r term_info_stages_current_rows [of example_job example_cdw res db']
  have "save_concepts (concepts example_job) = Inr (global_temp_fact_param_table db')"
    by blast
  with h old r g show ?thesis by blast
qed

section \<open>The term queries\<close>

lemma like_percent_any: "esc \<noteq> Some (CHR ''%'') \<Longrightarrow> like_match esc ''%'' s"
  by (induction s) auto

lemma like_plain:
  "CHR ''%'' \<notin> set p \<Longrightarrow> CHR ''_'' \<notin> set p \<Longrightarrow> (\<forall>c \<in> set p. Some c \<noteq> esc) \<Longrightarrow>
   like_match esc p s = (s = p)"
proof (induction p arbitrary: s)
  case Nil
  show ?case by simp
next
  case (Cons c p)
  then show ?case by (cases s) auto
qed

lemma like_prefix:
  "CHR ''%'' \<notin> set p \<Longrightarrow> CHR ''_'' \<notin> set p \<Longrightarrow> (\<forall>c \<in> set p. Some c \<noteq> esc) \<Longrightarrow>
   esc \<noteq> Some (CHR ''%'') \<Longrightarrow>
   like_match esc (p @ ''%'') s = starts_with s p"
proof (induction p arbitrary: s)
  case Nil
  then show ?case using like_percent_any [of esc s] by (simp add: starts_with_def)
next
  case (Cons c p)
  then show ?case by (cases s) (auto simp: starts_with_def)
qed

lemma q_md_set:
  "set (snd (term_query tmp escape) db) =
     {(md_modifier_path m, md_modifier_cd m, md_name_char m) | m t.
        m \<in> set (modifier_dimension db) \<and> t \<in> set (tmp db) \<and>
        like_match None (md_modifier_path m) (char_param1 t)}"
  unfolding term_query_def Let_def by (simp del: like_match.simps) blast

lemma q_cd_set:
  "set (fst (term_query tmp escape) db) =
     {(cd_concept_path c, cd_concept_cd c, cd_name_char c) | c t.
        c \<in> set (concept_dimension db) \<and> t \<in> set (tmp db) \<and>
        like_match (Some escape) (char_param1 t @ ''%'') (cd_concept_path c)}"
  unfolding term_query_def Let_def by (simp del: like_match.simps) blast

text \<open>
  Claim C2, amended. The modifier-dictionary query selects the distinct (path, code,
  label) rows of the modifier dictionary for which a staged path matches the modifier
  path read as a \<^verbatim>\<open>LIKE\<close> pattern, with no wildcard appended and no escape character;
  where the modifier paths hold no \<^verbatim>\<open>%\<close> and no \<^verbatim>\<open>_\<close>, these are the rows whose
  modifier path is equal to a staged path. The direction is reversed relative to the
  concept-dictionary query, which, where the staged paths hold no \<^verbatim>\<open>%\<close>, no
  \<^verbatim>\<open>_\<close> and no \<^verbatim>\<open>|\<close>, selects the rows whose dictionary path begins with a
  staged path.
\<close>

theorem modifier_query_like_match:
  "set (snd (term_query tmp escape) db) =
     {(md_modifier_path m, md_modifier_cd m, md_name_char m) | m t.
        m \<in> set (modifier_dimension db) \<and> t \<in> set (tmp db) \<and>
        like_match None (md_modifier_path m) (char_param1 t)} \<and>
   distinct (snd (term_query tmp escape) db) \<and>
   ((\<forall>m \<in> set (modifier_dimension db).
       CHR ''%'' \<notin> set (md_modifier_path m) \<and> CHR ''_'' \<notin> set (md_modifier_path m)) \<longrightarrow>
     set (snd (term_query tmp escape) db) =
       {(md_modifier_path m, md_modifier_cd m, md_name_char m) | m t.
          m \<in> set (modifier_dimension db) \<and> t \<in> set (tmp db) \<and>
          char_param1 t = md_modifier_path m}) \<and>
   ((\<forall>t \<in> set (tmp db).
       CHR ''%'' \<notin> set (char_param1 t) \<and> CHR ''_'' \<notin> set (char_param1 t) \<and>
       CHR ''|'' \<notin> set (char_param1 t)) \<longrightarrow>
     set (fst (term_query tmp (CHR ''|'')) db) =
       {(cd_concept_path c, cd_concept_cd c, cd_name_char c) | c t.
          c \<in> set (concept_dimension db) \<and> t \<in> set (tmp db) \<and>
          starts_with (cd_concept_path c) (char_param1 t)})"
proof (intro conjI impI)
  show "set (snd (term_query tmp escape) db) =
     {(md_modifier_path m, md_modifier_cd m, md_name_char m) | m t.
        m \<in> set (modifier_dimension db) \<and> t \<in> set (tmp db) \<and>
        like_match None (md_modifier_path m) (char_param1 t)}"
    by (rule q_md_set)
  show "distinct (snd (term_query tmp escape) db)"
    by (simp add: term_query_def Let_def del: like_match.simps)
next
  assume a: "\<forall>m \<in> set (modifier_dimension db).
       CHR ''%'' \<notin> set (md_modifier_path m) \<and> CHR ''_'' \<notin> set (md_modifier_path m)"
  have "like_match None (md_modifier_path m) s = (s = md_modifier_path m)"
    if "m \<in> set (modifier_dimension db)" for m s
    using a that by (intro like_plain) auto
  then show "set (snd (term_query tmp escape) db) =
       {(md_modifier_path m, md_modifier_cd m, md_name_char m) | m t.
          m \<in> set (modifier_dimension db) \<and> t \<in> set (tmp db) \<and>
          char_param1 t = md_modifier_path m}"
    unfolding q_md_set by blast
next
  assume a: "\<forall>t \<in> set (tmp db).
       CHR ''%'' \<notin> set (char_param1 t) \<and> CHR ''_'' \<notin> set (char_param1 t) \<and>
       CHR ''|'' \<notin> set (char_param1 t)"
  have "like_match (Some (CHR ''|'')) (char_param1 t @ ''%'') s = starts_with s (char_param1 t)"
    if "t \<in> set (tmp db)" for t s
    using a that by (intro like_prefix) auto
  then show "set (fst (term_query tmp (CHR ''|'')) db) =
       {(cd_concept_path c, cd_concept_cd c, cd_name_char c) | c t.
          c \<in> set (concept_dimension db) \<and> t \<in> set (tmp db) \<and>
          starts_with (cd_concept_path c) (char_param1 t)}"
    unfolding q_cd_set by blast
qed

theorem modifier_query_like_match_witness:
  "(mk_path [''a'', ''b''], ''M1'', ''m1'')
     \<in> set (snd (term_query global_temp_fact_param_table (CHR ''|'')) example_staged) \<and>
   (mk_path [''a''], ''M0'', ''m0'')
     \<notin> set (snd (term_query global_temp_fact_param_table (CHR ''|'')) example_staged) \<and>
   (mk_path [''a'', ''b'', ''c''], ''C2'', ''c'')
     \<in> set (fst (term_query global_temp_fact_param_table (CHR ''|'')) example_staged)"
proof -
  have m: "\<forall>m \<in> set (modifier_dimension example_staged).
       CHR ''%'' \<notin> set (md_modifier_path m) \<and> CHR ''_'' \<notin> set (md_modifier_path m)"
    by (simp add: example_staged_def example_cdw_def mk_path_def bs_def)
  have t: "\<forall>t \<in> set (global_temp_fact_param_table example_staged).
       CHR ''%'' \<notin> set (char_param1 t) \<and> CHR ''_'' \<notin> set (char_param1 t) \<and>
       CHR ''|'' \<notin> set (char_param1 t)"
    by (simp add: example_staged_def example_cdw_def mk_path_def bs_def)
  from m t modifier_query_like_match
    [of global_temp_fact_param_table "CHR ''|''" example_staged]
  have md: "set (snd (term_query global_temp_fact_param_table (CHR ''|'')) example_staged) =
       {(md_modifier_path m, md_modifier_cd m, md_name_char m) | m t.
          m \<in> set (modifier_dimension example_staged) \<and>
          t \<in> set (global_temp_fact_param_table example_staged) \<and>
          char_param1 t = md_modifier_path m}"
    and cd: "set (fst (term_query global_temp_fact_param_table (CHR ''|'')) example_staged) =
       {(cd_concept_path c, cd_concept_cd c, cd_name_char c) | c t.
          c \<in> set (concept_dimension example_staged) \<and>
          t \<in> set (global_temp_fact_param_table example_staged) \<and>
          starts_with (cd_concept_path c) (char_param1 t)}"
    by blast+
  have tmp: "global_temp_fact_param_table example_staged =
      [\<lparr>char_param1 = mk_path [''a'', ''b''], char_param2 = ''n1 [2 facts]''\<rparr>]"
    by (simp add: example_staged_def)
  have m1: "\<lparr>md_modifier_path = mk_path [''a'', ''b''], md_modifier_cd = ''M1'',
              md_name_char = ''m1''\<rparr> \<in> set (modifier_dimension example_staged)"
    by (simp add: example_staged_def example_cdw_def)
  have c2: "\<lparr>cd_concept_path = mk_path [''a'', ''b'', ''c''], cd_concept_cd = ''C2'',
              cd_name_char = ''c''\<rparr> \<in> set (concept_dimension example_staged)"
    by (simp add: example_staged_def example_cdw_def)
  have "(mk_path [''a'', ''b''], ''M1'', ''m1'')
     \<in> set (snd (term_query global_temp_fact_param_table (CHR ''|'')) example_staged)"
    unfolding md
    apply (rule CollectI)
    apply (rule exI [of _ "\<lparr>md_modifier_path = mk_path [''a'', ''b''], md_modifier_cd = ''M1'',
              md_name_char = ''m1''\<rparr>"])
    apply (rule exI [of _ "\<lparr>char_param1 = mk_path [''a'', ''b''], char_param2 = ''n1 [2 facts]''\<rparr>"])
    apply (simp add: m1 tmp)
    done
  moreover have "(mk_path [''a''], ''M0'', ''m0'')
     \<notin> set (snd (term_query global_temp_fact_param_table (CHR ''|'')) example_staged)"
  proof
    assume "(mk_path [''a''], ''M0'', ''m0'')
     \<in> set (snd (term_query global_temp_fact_param_table (CHR ''|'')) example_staged)"
    then obtain m :: md_row and t where "mk_path [''a''] = md_modifier_path m"
        "t \<in> set (global_temp_fact_param_table example_staged)"
        "char_param1 t = md_modifier_path m"
      unfolding md by blast
    then have "mk_path [''a''] = mk_path [''a'', ''b'']" by (simp add: tmp)
    then show False by (simp add: mk_path_def)
  qed
  moreover have "(mk_path [''a'', ''b'', ''c''], ''C2'', ''c'')
     \<in> set (fst (term_query global_temp_fact_param_table (CHR ''|'')) example_staged)"
    unfolding cd
    apply (rule CollectI)
    apply (rule exI [of _ "\<lparr>cd_concept_path = mk_path [''a'', ''b'', ''c''], cd_concept_cd = ''C2'',
              cd_name_char = ''c''\<rparr>"])
    apply (rule exI [of _ "\<lparr>char_param1 = mk_path [''a'', ''b''], char_param2 = ''n1 [2 facts]''\<rparr>"])
    apply (simp add: c2 tmp)
    apply (simp add: starts_with_def mk_path_def)
    done
  ultimately show ?thesis by blast
qed

text \<open>
  Claim C2 as stated fails: the staged path of the example begins with the modifier path
  of the second modifier row, and the query does not select that row.
\<close>

theorem modifier_query_no_prefix_match:
  "starts_with (mk_path [''a'', ''b'']) (mk_path [''a'']) \<and>
   global_temp_fact_param_table example_staged =
     [\<lparr>char_param1 = mk_path [''a'', ''b''], char_param2 = ''n1 [2 facts]''\<rparr>] \<and>
   modifier_dimension example_staged =
     [\<lparr>md_modifier_path = mk_path [''a'', ''b''], md_modifier_cd = ''M1'', md_name_char = ''m1''\<rparr>,
      \<lparr>md_modifier_path = mk_path [''a''], md_modifier_cd = ''M0'', md_name_char = ''m0''\<rparr>] \<and>
   snd (term_query global_temp_fact_param_table (CHR ''|'')) example_staged =
     [(mk_path [''a'', ''b''], ''M1'', ''m1'')]"
  by code_simp

text \<open>
  The condition on the staged paths is needed: an underscore in a staged path stands for
  any character, so the concept query selects a dictionary path that does not begin with
  the staged path.
\<close>

lemma concept_query_wildcard_in_staged_path:
  "\<not> starts_with (mk_path [''aXb'', ''c'']) (mk_path [''a_b'']) \<and>
   fst (term_query global_temp_fact_param_table (CHR ''|''))
     (example_cdw\<lparr>global_temp_fact_param_table :=
          [\<lparr>char_param1 = mk_path [''a_b''], char_param2 = ''n''\<rparr>],
        concept_dimension :=
          [\<lparr>cd_concept_path = mk_path [''aXb'', ''c''], cd_concept_cd = ''C9'',
            cd_name_char = ''c''\<rparr>]\<rparr>)
     = [(mk_path [''aXb'', ''c''], ''C9'', ''c'')]"
  by code_simp

section \<open>The selection of the facts\<close>

lemma s_facts_eq:
  "snd (patient_data_queries tmp) rid db =
     [f. f \<leftarrow> observation_fact db,
         code \<leftarrow> query_global_temp db, f_concept_cd f = code,
         pset \<leftarrow> qt_patient_set_collection db, pset_patient_num pset = f_patient_num f,
         pset_result_instance_id pset = rid]"
  by (simp add: patient_data_queries_def Let_def)

lemma concat_map_if_filter:
  "concat (map (\<lambda>x. if P x then [x] else []) xs) = filter P xs"
  by (induction xs) auto

lemma concat_map_single:
  "distinct xs \<Longrightarrow> concat (map (\<lambda>x. if x = a then ys else []) xs) = (if a \<in> set xs then ys else [])"
  by (induction xs) auto

lemma concat_map_filter_replicate:
  "concat (map (\<lambda>x. if P x then ys else []) xs) = concat (replicate (length (filter P xs)) ys)"
  by (induction xs) auto

lemma distinct_map_filter_count:
  "distinct (map g (filter Q xs)) \<Longrightarrow>
   length (filter (\<lambda>x. g x = a \<and> Q x) xs) = (if \<exists>x \<in> set xs. g x = a \<and> Q x then 1 else 0)"
proof (induction xs)
  case Nil
  show ?case by simp
next
  case (Cons x xs)
  show ?case
  proof (cases "g x = a \<and> Q x")
    case True
    with Cons.prems have "\<forall>y \<in> set xs. \<not> (g y = a \<and> Q y)" by (auto simp: image_iff)
    then have "filter (\<lambda>x. g x = a \<and> Q x) xs = []" by (simp add: filter_empty_conv)
    with True show ?thesis by simp
  next
    case False
    with Cons show ?thesis by (auto split: if_splits)
  qed
qed

text \<open>
  Claim C1. For every content of the tables and every patient set identifier, the rows
  that the final fact selection returns are exactly the fact rows whose concept code is
  in the code table and whose patient is a member of the patient set; for a patient set
  with no member the selection is empty, whatever the staged codes are. Where the code
  table holds no code twice (as after the insert statement) and the patient set holds no
  patient twice, the selection is the list of these fact rows, each once.
\<close>

theorem fact_selection_exact:
  "set (snd (patient_data_queries tmp) rid db) =
     {f \<in> set (observation_fact db). selected_fact rid db f} \<and>
   (members rid db = {} \<longrightarrow> snd (patient_data_queries tmp) rid db = []) \<and>
   (distinct (query_global_temp db) \<and>
    distinct (map pset_patient_num
       [p \<leftarrow> qt_patient_set_collection db. pset_result_instance_id p = rid]) \<longrightarrow>
      snd (patient_data_queries tmp) rid db =
        filter (selected_fact rid db) (observation_fact db))"
proof (intro conjI impI)
  show "set (snd (patient_data_queries tmp) rid db) =
     {f \<in> set (observation_fact db). selected_fact rid db f}"
  proof -
    have m: "a \<in> members rid db \<longleftrightarrow>
          (\<exists>p \<in> set (qt_patient_set_collection db).
             pset_patient_num p = a \<and> pset_result_instance_id p = rid)" for a
      unfolding members_def by (simp add: Bex_def) metis
    show ?thesis
      unfolding s_facts_eq selected_fact_def m by auto
  qed
next
  assume "members rid db = {}"
  then have "\<forall>p \<in> set (qt_patient_set_collection db). pset_result_instance_id p \<noteq> rid"
    by (auto simp: members_def)
  then have "set (snd (patient_data_queries tmp) rid db) = {}"
    by (auto simp: s_facts_eq)
  then show "snd (patient_data_queries tmp) rid db = []" by simp
next
  assume d: "distinct (query_global_temp db) \<and>
    distinct (map pset_patient_num
       [p \<leftarrow> qt_patient_set_collection db. pset_result_instance_id p = rid])"
  have one: "concat (map (\<lambda>code. if f_concept_cd f = code then
                 concat (map (\<lambda>pset. if pset_patient_num pset = f_patient_num f
                    then if pset_result_instance_id pset = rid then [f] else [] else [])
                   (qt_patient_set_collection db)) else [])
               (query_global_temp db))
           = (if selected_fact rid db f then [f] else [])" for f
  proof -
    let ?Q = "\<lambda>p. pset_result_instance_id p = rid"
    have inner: "concat (map (\<lambda>pset. if pset_patient_num pset = f_patient_num f
                    then if pset_result_instance_id pset = rid then [f] else [] else [])
                   (qt_patient_set_collection db))
          = (if f_patient_num f \<in> members rid db then [f] else [])"
    proof -
      have "concat (map (\<lambda>pset. if pset_patient_num pset = f_patient_num f
                    then if pset_result_instance_id pset = rid then [f] else [] else [])
                   (qt_patient_set_collection db))
         = concat (map (\<lambda>pset. if pset_patient_num pset = f_patient_num f \<and> ?Q pset
                    then [f] else []) (qt_patient_set_collection db))"
        by (rule arg_cong [where f = concat]) auto
      also have "\<dots> = concat (replicate (length (filter
             (\<lambda>p. pset_patient_num p = f_patient_num f \<and> ?Q p)
             (qt_patient_set_collection db))) [f])"
        by (rule concat_map_filter_replicate)
      also have "length (filter (\<lambda>p. pset_patient_num p = f_patient_num f \<and> ?Q p)
             (qt_patient_set_collection db))
          = (if \<exists>p \<in> set (qt_patient_set_collection db).
                  pset_patient_num p = f_patient_num f \<and> ?Q p then 1 else 0)"
        using d by (intro distinct_map_filter_count) simp
      finally show ?thesis by (auto simp: members_def)
    qed
    have "concat (map (\<lambda>code. if f_concept_cd f = code then
                 concat (map (\<lambda>pset. if pset_patient_num pset = f_patient_num f
                    then if pset_result_instance_id pset = rid then [f] else [] else [])
                   (qt_patient_set_collection db)) else [])
               (query_global_temp db))
        = concat (map (\<lambda>code. if code = f_concept_cd f then
                 (if f_patient_num f \<in> members rid db then [f] else []) else [])
               (query_global_temp db))"
      unfolding inner by (rule arg_cong [where f = concat]) auto
    also have "\<dots> = (if f_concept_cd f \<in> set (query_global_temp db)
                      then (if f_patient_num f \<in> members rid db then [f] else []) else [])"
      using d by (simp add: concat_map_single)
    finally show ?thesis by (simp add: selected_fact_def)
  qed
  have "snd (patient_data_queries tmp) rid db =
          concat (map (\<lambda>f. if selected_fact rid db f then [f] else []) (observation_fact db))"
    unfolding s_facts_eq one ..
  also have "\<dots> = filter (selected_fact rid db) (observation_fact db)"
    by (rule concat_map_if_filter)
  finally show "snd (patient_data_queries tmp) rid db =
        filter (selected_fact rid db) (observation_fact db)" .
qed

theorem fact_selection_exact_witness:
  "distinct (query_global_temp example_cdw) \<and>
   distinct (map pset_patient_num
      [p \<leftarrow> qt_patient_set_collection example_cdw. pset_result_instance_id p = 7]) \<and>
   snd (patient_data_queries global_temp_fact_param_table) 7 example_cdw =
     filter (selected_fact 7 example_cdw) (observation_fact example_cdw) \<and>
   members 9 example_cdw = {} \<and>
   snd (patient_data_queries global_temp_fact_param_table) 9 example_cdw = []"
proof -
  have d: "distinct (query_global_temp example_cdw) \<and>
     distinct (map pset_patient_num
      [p \<leftarrow> qt_patient_set_collection example_cdw. pset_result_instance_id p = 7])"
    by (simp add: example_cdw_def)
  have m: "members 9 example_cdw = {}"
    by (auto simp: members_def example_cdw_def)
  from d m fact_selection_exact [of global_temp_fact_param_table 7 example_cdw]
    fact_selection_exact [of global_temp_fact_param_table 9 example_cdw]
  show ?thesis by blast
qed

lemma fact_selection_example:
  "snd (patient_data_queries global_temp_fact_param_table) 7 example_cdw =
     [\<lparr>f_encounter_num = 11, f_patient_num = 1, f_concept_cd = ''C3'', f_other = []\<rparr>]"
  by code_simp

section \<open>The encounter query\<close>

lemma sql_max_None_iff: "sql_max xs = None \<longleftrightarrow> (\<forall>a. Some a \<notin> set xs)"
  by (induction xs rule: sql_max.induct) (auto split: option.splits)

lemma sql_max_Some_iff:
  "sql_max xs = Some m \<longleftrightarrow> Some m \<in> set xs \<and> (\<forall>a. Some a \<in> set xs \<longrightarrow> a \<le> m)"
proof (induction xs arbitrary: m rule: sql_max.induct)
  case 1
  show ?case by simp
next
  case (2 xs)
  then show ?case by simp
next
  case (3 a xs)
  show ?case
  proof (cases "sql_max xs")
    case None
    then have "\<forall>b. Some b \<notin> set xs" by (simp add: sql_max_None_iff)
    with None show ?thesis by auto
  next
    case (Some b)
    with "3.IH" [of b] have b: "Some b \<in> set xs" "\<forall>c. Some c \<in> set xs \<longrightarrow> c \<le> b" by auto
    from Some have eq: "sql_max (Some a # xs) = Some (max a b)" by simp
    show ?thesis
    proof
      assume "sql_max (Some a # xs) = Some m"
      with eq have m: "m = max a b" by simp
      from b(2) have "\<forall>c. Some c \<in> set (Some a # xs) \<longrightarrow> c \<le> max a b" by auto
      moreover from b(1) have "Some (max a b) \<in> set (Some a # xs)" by (simp add: max_def)
      ultimately show "Some m \<in> set (Some a # xs) \<and> (\<forall>c. Some c \<in> set (Some a # xs) \<longrightarrow> c \<le> m)"
        using m by simp
    next
      assume r: "Some m \<in> set (Some a # xs) \<and> (\<forall>c. Some c \<in> set (Some a # xs) \<longrightarrow> c \<le> m)"
      then have "a \<le> m" "b \<le> m" using b(1) by auto
      moreover from r b(2) have "m \<le> max a b" by (auto simp: max_def)
      ultimately have "m = max a b" by simp
      with eq show "sql_max (Some a # xs) = Some m" by simp
    qed
  qed
qed

lemma sql_max_mem: "sql_max xs = Some m \<Longrightarrow> Some m \<in> set xs"
  by (simp add: sql_max_Some_iff)

lemma sql_max_ub: "sql_max xs = Some m \<Longrightarrow> Some a \<in> set xs \<Longrightarrow> a \<le> m"
  by (simp add: sql_max_Some_iff)

lemma sql_max_eqI:
  "Some m \<in> set xs \<Longrightarrow> (\<And>a. Some a \<in> set xs \<Longrightarrow> a \<le> m) \<Longrightarrow> sql_max xs = Some m"
  by (simp add: sql_max_Some_iff)

lemma sql_max_exists: "Some a \<in> set xs \<Longrightarrow> \<exists>m. sql_max xs = Some m"
  using sql_max_None_iff [of xs] by (cases "sql_max xs") auto


lemma sql_max_cong:
  assumes "set xs = set ys"
  shows "sql_max xs = sql_max ys"
proof (cases "sql_max ys")
  case None
  then have "\<forall>a. Some a \<notin> set ys" by (simp add: sql_max_None_iff)
  then have "\<forall>a. Some a \<notin> set xs" unfolding assms .
  then have "sql_max xs = None" by (simp add: sql_max_None_iff)
  with None show ?thesis by simp
next
  case (Some m)
  then have "Some m \<in> set ys \<and> (\<forall>a. Some a \<in> set ys \<longrightarrow> a \<le> m)"
    by (simp add: sql_max_Some_iff)
  then have "Some m \<in> set xs \<and> (\<forall>a. Some a \<in> set xs \<longrightarrow> a \<le> m)" unfolding assms .
  then have "sql_max xs = Some m" by (simp add: sql_max_Some_iff)
  with Some show ?thesis by simp
qed

lemma last_visits_iff:
  "(pn, t) \<in> set (last_visits rid db) \<longleftrightarrow>
     (\<exists>v \<in> set (visit_dimension db). vd_patient_num v = pn) \<and>
     has_patient_row db pn \<and> in_patient_set rid db pn \<and>
     t = sql_max (map vd_start_date [v \<leftarrow> visit_dimension db. vd_patient_num v = pn])"
proof -
  let ?joined = "[vd. vd \<leftarrow> visit_dimension db,
                 pd \<leftarrow> patient_dimension db, pd_patient_num pd = vd_patient_num vd,
                 pset \<leftarrow> qt_patient_set_collection db, pset_patient_num pset = pd_patient_num pd,
                 pset_result_instance_id pset = rid]"
  have j: "v \<in> set ?joined \<longleftrightarrow>
        v \<in> set (visit_dimension db) \<and> has_patient_row db (vd_patient_num v) \<and>
        in_patient_set rid db (vd_patient_num v)" for v
    unfolding has_patient_row_def in_patient_set_def by auto
  have m: "sql_max (map vd_start_date [v \<leftarrow> ?joined. vd_patient_num v = pn]) =
           sql_max (map vd_start_date [v \<leftarrow> visit_dimension db. vd_patient_num v = pn])"
    if "has_patient_row db pn" "in_patient_set rid db pn"
  proof -
    have "set (map vd_start_date [v \<leftarrow> ?joined. vd_patient_num v = pn]) =
          set (map vd_start_date [v \<leftarrow> visit_dimension db. vd_patient_num v = pn])"
      using that j by (auto simp only: set_map set_filter image_iff mem_Collect_eq)
    then show ?thesis by (rule sql_max_cong)
  qed
  have "(pn, t) \<in> set (last_visits rid db) \<longleftrightarrow>
          pn \<in> vd_patient_num ` set ?joined \<and>
          t = sql_max (map vd_start_date [v \<leftarrow> ?joined. vd_patient_num v = pn])"
    unfolding last_visits_def Let_def by auto
  also have "\<dots> \<longleftrightarrow> (\<exists>v \<in> set (visit_dimension db). vd_patient_num v = pn) \<and>
     has_patient_row db pn \<and> in_patient_set rid db pn \<and>
     t = sql_max (map vd_start_date [v \<leftarrow> visit_dimension db. vd_patient_num v = pn])"
    using m j by (auto simp only: image_iff)
  finally show ?thesis .
qed


lemma sql_eq_iff: "sql_eq x y \<longleftrightarrow> (\<exists>a. x = Some a \<and> y = Some a)"
  by (cases x; cases y) auto

lemma latest_iff:
  assumes "v \<in> set (visit_dimension db)"
  shows "sql_eq (vd_start_date v)
           (sql_max (map vd_start_date
              [v' \<leftarrow> visit_dimension db. vd_patient_num v' = vd_patient_num v]))
         \<longleftrightarrow> is_latest db v"
proof -
  let ?xs = "map vd_start_date
              [v' \<leftarrow> visit_dimension db. vd_patient_num v' = vd_patient_num v]"
  have mem: "Some a \<in> set ?xs \<longleftrightarrow>
     (\<exists>v' \<in> set (visit_dimension db).
         vd_patient_num v' = vd_patient_num v \<and> vd_start_date v' = Some a)" for a
    by (auto simp: image_iff)
  show ?thesis
  proof
    assume "sql_eq (vd_start_date v) (sql_max ?xs)"
    then obtain t where t: "vd_start_date v = Some t" "sql_max ?xs = Some t"
      by (auto simp: sql_eq_iff)
    from t(2) have "\<forall>a. Some a \<in> set ?xs \<longrightarrow> a \<le> t" by (blast dest: sql_max_ub)
    with t(1) show "is_latest db v" unfolding is_latest_def mem by blast
  next
    assume "is_latest db v"
    then obtain t where t: "vd_start_date v = Some t"
      and le: "\<forall>v' \<in> set (visit_dimension db). vd_patient_num v' = vd_patient_num v \<longrightarrow>
           (\<forall>t'. vd_start_date v' = Some t' \<longrightarrow> t' \<le> t)"
      unfolding is_latest_def by blast
    from t assms have "Some t \<in> set ?xs" unfolding mem by blast
    moreover from le have "\<forall>a. Some a \<in> set ?xs \<longrightarrow> a \<le> t" unfolding mem by blast
    ultimately have "sql_max ?xs = Some t" by (blast intro: sql_max_eqI)
    with t show "sql_eq (vd_start_date v) (sql_max ?xs)" by simp
  qed
qed

lemma arb_joined_iff:
  "v \<in> set [vd. vd \<leftarrow> visit_dimension db, l \<leftarrow> last_visits rid db,
              vd_patient_num vd = fst l \<and> sql_eq (vd_start_date vd) (snd l)]
   \<longleftrightarrow> v \<in> set (visit_dimension db) \<and> eligible rid db (vd_patient_num v) \<and> is_latest db v"
proof -
  have "v \<in> set [vd. vd \<leftarrow> visit_dimension db, l \<leftarrow> last_visits rid db,
              vd_patient_num vd = fst l \<and> sql_eq (vd_start_date vd) (snd l)]
    \<longleftrightarrow> v \<in> set (visit_dimension db) \<and>
        (\<exists>t. (vd_patient_num v, t) \<in> set (last_visits rid db) \<and> sql_eq (vd_start_date v) t)"
    by auto
  also have "\<dots> \<longleftrightarrow> v \<in> set (visit_dimension db) \<and> eligible rid db (vd_patient_num v) \<and>
       sql_eq (vd_start_date v) (sql_max (map vd_start_date
              [v' \<leftarrow> visit_dimension db. vd_patient_num v' = vd_patient_num v]))"
    unfolding last_visits_iff eligible_def by blast
  also have "\<dots> \<longleftrightarrow> v \<in> set (visit_dimension db) \<and> eligible rid db (vd_patient_num v) \<and>
       is_latest db v"
    using latest_iff [of v db] by blast
  finally show ?thesis .
qed

lemma arb_visits_iff:
  "(e, pn) \<in> set (arb_visits rid db) \<longleftrightarrow>
     (\<exists>v \<in> set (visit_dimension db).
        vd_patient_num v = pn \<and> eligible rid db pn \<and> is_chosen db v \<and>
        e = Some (vd_encounter_num v))"
proof -
  let ?joined = "[vd. vd \<leftarrow> visit_dimension db, l \<leftarrow> last_visits rid db,
              vd_patient_num vd = fst l \<and> sql_eq (vd_start_date vd) (snd l)]"
  let ?ys = "map (\<lambda>vd. Some (vd_encounter_num vd)) [vd \<leftarrow> ?joined. vd_patient_num vd = pn]"
  have mem: "Some a \<in> set ?ys \<longleftrightarrow>
      (\<exists>v \<in> set (visit_dimension db). vd_patient_num v = pn \<and> eligible rid db pn \<and>
          is_latest db v \<and> vd_encounter_num v = a)" for a
    unfolding set_map set_filter image_iff mem_Collect_eq arb_joined_iff by auto
  have arb: "(e, pn) \<in> set (arb_visits rid db) \<longleftrightarrow>
        pn \<in> vd_patient_num ` set ?joined \<and> e = sql_max ?ys"
    unfolding arb_visits_def Let_def by auto
  show ?thesis
  proof
    assume "(e, pn) \<in> set (arb_visits rid db)"
    with arb have pn: "pn \<in> vd_patient_num ` set ?joined" and e: "e = sql_max ?ys" by simp_all
    from pn obtain v1 where v1: "v1 \<in> set ?joined" "vd_patient_num v1 = pn" by auto
    then have "Some (vd_encounter_num v1) \<in> set ?ys"
      unfolding mem arb_joined_iff by blast
    then obtain m where m: "sql_max ?ys = Some m" using sql_max_exists by blast
    then have "Some m \<in> set ?ys" and top: "\<forall>a. Some a \<in> set ?ys \<longrightarrow> a \<le> m"
      by (blast dest: sql_max_mem sql_max_ub)+
    then obtain v where v: "v \<in> set (visit_dimension db)" "vd_patient_num v = pn"
        "eligible rid db pn" "is_latest db v" "vd_encounter_num v = m"
      unfolding mem by blast
    have "is_chosen db v"
      unfolding is_chosen_def
    proof (intro conjI ballI impI)
      show "is_latest db v" by (rule v)
    next
      fix v' assume "v' \<in> set (visit_dimension db)"
        and "vd_patient_num v' = vd_patient_num v \<and> is_latest db v'"
      with v have "Some (vd_encounter_num v') \<in> set ?ys" unfolding mem by blast
      with top v show "vd_encounter_num v' \<le> vd_encounter_num v" by simp
    qed
    with v e m show "\<exists>v \<in> set (visit_dimension db).
        vd_patient_num v = pn \<and> eligible rid db pn \<and> is_chosen db v \<and>
        e = Some (vd_encounter_num v)" by blast
  next
    assume "\<exists>v \<in> set (visit_dimension db).
        vd_patient_num v = pn \<and> eligible rid db pn \<and> is_chosen db v \<and>
        e = Some (vd_encounter_num v)"
    then obtain v where v: "v \<in> set (visit_dimension db)" "vd_patient_num v = pn"
        "eligible rid db pn" "is_chosen db v" "e = Some (vd_encounter_num v)" by blast
    then have l: "is_latest db v"
      and top: "\<forall>v' \<in> set (visit_dimension db).
         vd_patient_num v' = vd_patient_num v \<and> is_latest db v' \<longrightarrow>
           vd_encounter_num v' \<le> vd_encounter_num v"
      unfolding is_chosen_def by simp_all
    from v l have j: "v \<in> set ?joined" unfolding arb_joined_iff by simp
    from v l have "Some (vd_encounter_num v) \<in> set ?ys" unfolding mem by blast
    moreover from top v(2) have "\<forall>a. Some a \<in> set ?ys \<longrightarrow> a \<le> vd_encounter_num v"
      unfolding mem by auto
    ultimately have "sql_max ?ys = Some (vd_encounter_num v)" by (blast intro: sql_max_eqI)
    moreover from j v have "pn \<in> vd_patient_num ` set ?joined" by blast
    ultimately show "(e, pn) \<in> set (arb_visits rid db)" using v arb by simp
  qed
qed

lemma enc_q_iff:
  "v \<in> set (snd patients_query rid db) \<longleftrightarrow>
     v \<in> set (visit_dimension db) \<and>
     (\<exists>v' \<in> set (visit_dimension db).
        eligible rid db (vd_patient_num v') \<and> is_chosen db v' \<and>
        vd_encounter_num v' = vd_encounter_num v)"
proof -
  have "v \<in> set (snd patients_query rid db) \<longleftrightarrow>
     v \<in> set (visit_dimension db) \<and>
     (\<exists>e pn. (e, pn) \<in> set (arb_visits rid db) \<and> sql_eq e (Some (vd_encounter_num v)))"
    unfolding patients_query_def Let_def by auto
  also have "\<dots> \<longleftrightarrow> v \<in> set (visit_dimension db) \<and>
     (\<exists>v' \<in> set (visit_dimension db).
        eligible rid db (vd_patient_num v') \<and> is_chosen db v' \<and>
        vd_encounter_num v' = vd_encounter_num v)"
    unfolding arb_visits_iff sql_eq_iff by (auto simp: eq_commute [of "vd_encounter_num v"])
  finally show ?thesis .
qed


lemma latest_exists:
  assumes "v0 \<in> set (visit_dimension db)" "vd_patient_num v0 = pn" "vd_start_date v0 = Some t0"
  shows "\<exists>v \<in> set (visit_dimension db). vd_patient_num v = pn \<and> is_latest db v"
proof -
  let ?xs = "map vd_start_date [v' \<leftarrow> visit_dimension db. vd_patient_num v' = pn]"
  from assms have "Some t0 \<in> set ?xs" by (auto simp: image_iff)
  then obtain T where T: "sql_max ?xs = Some T" using sql_max_exists by blast
  then have "Some T \<in> set ?xs" by (rule sql_max_mem)
  then obtain v where v: "v \<in> set (visit_dimension db)" "vd_patient_num v = pn"
      "vd_start_date v = Some T" by (auto simp: image_iff)
  with T have "sql_eq (vd_start_date v)
           (sql_max (map vd_start_date
              [v' \<leftarrow> visit_dimension db. vd_patient_num v' = vd_patient_num v]))" by simp
  with v(1) have "is_latest db v" by (simp only: latest_iff)
  with v show ?thesis by blast
qed

lemma chosen_exists:
  assumes "eligible rid db pn"
    and "v0 \<in> set (visit_dimension db)" "vd_patient_num v0 = pn" "vd_start_date v0 = Some t0"
  shows "\<exists>v \<in> set (visit_dimension db). vd_patient_num v = pn \<and> is_chosen db v"
proof -
  let ?joined = "[vd. vd \<leftarrow> visit_dimension db, l \<leftarrow> last_visits rid db,
              vd_patient_num vd = fst l \<and> sql_eq (vd_start_date vd) (snd l)]"
  let ?ys = "map (\<lambda>vd. Some (vd_encounter_num vd)) [vd \<leftarrow> ?joined. vd_patient_num vd = pn]"
  from assms(2-4) obtain v1 where v1: "v1 \<in> set (visit_dimension db)"
      "vd_patient_num v1 = pn" "is_latest db v1"
    using latest_exists by blast
  with assms(1) have "v1 \<in> set ?joined" by (simp only: arb_joined_iff)
  with v1(2) have "pn \<in> vd_patient_num ` set ?joined" by blast
  then have "(sql_max ?ys, pn) \<in> set (arb_visits rid db)"
    unfolding arb_visits_def Let_def by auto
  then show ?thesis unfolding arb_visits_iff by blast
qed

text \<open>
  Claim C5, amended. For every patient of the patient set that has a row in the patient
  table and a visit with a start date, the encounter query returns a visit of that
  patient whose start date is the latest of the patient's visits and whose encounter
  number is the largest among the visits with that start date. Where no two visits share
  an encounter number, every row the query returns is this visit of such a patient.
\<close>

theorem encounter_query_latest_visit:
  "(in_patient_set rid db pn \<and> has_patient_row db pn \<and>
    (\<exists>v \<in> set (visit_dimension db). vd_patient_num v = pn \<and> vd_start_date v \<noteq> None) \<longrightarrow>
      (\<exists>v \<in> set (snd patients_query rid db). vd_patient_num v = pn \<and> is_chosen db v)) \<and>
   (distinct (map vd_encounter_num (visit_dimension db)) \<longrightarrow>
      (\<forall>v \<in> set (snd patients_query rid db).
         in_patient_set rid db (vd_patient_num v) \<and> has_patient_row db (vd_patient_num v) \<and>
         is_chosen db v))"
proof (rule conjI; rule impI)
  assume a: "in_patient_set rid db pn \<and> has_patient_row db pn \<and>
    (\<exists>v \<in> set (visit_dimension db). vd_patient_num v = pn \<and> vd_start_date v \<noteq> None)"
  then obtain v0 t0 where "v0 \<in> set (visit_dimension db)" "vd_patient_num v0 = pn"
      "vd_start_date v0 = Some t0" by auto
  moreover from a have e: "eligible rid db pn" by (simp add: eligible_def)
  ultimately obtain v where v: "v \<in> set (visit_dimension db)" "vd_patient_num v = pn"
      "is_chosen db v"
    using chosen_exists by blast
  with e have "v \<in> set (snd patients_query rid db)" unfolding enc_q_iff by blast
  with v show "\<exists>v \<in> set (snd patients_query rid db). vd_patient_num v = pn \<and> is_chosen db v"
    by blast
next
  assume d: "distinct (map vd_encounter_num (visit_dimension db))"
  show "\<forall>v \<in> set (snd patients_query rid db).
         in_patient_set rid db (vd_patient_num v) \<and> has_patient_row db (vd_patient_num v) \<and>
         is_chosen db v"
  proof
  fix v
  assume "v \<in> set (snd patients_query rid db)"
  then obtain v' where v: "v \<in> set (visit_dimension db)" "v' \<in> set (visit_dimension db)"
      "eligible rid db (vd_patient_num v')" "is_chosen db v'"
      "vd_encounter_num v' = vd_encounter_num v"
    unfolding enc_q_iff by blast
  from d have "inj_on vd_encounter_num (set (visit_dimension db))"
    by (simp add: distinct_map)
  with v have "v' = v" by (auto dest: inj_onD)
  with v show "in_patient_set rid db (vd_patient_num v) \<and>
      has_patient_row db (vd_patient_num v) \<and> is_chosen db v"
    by (simp add: eligible_def)
  qed
qed

lemma encounter_query_example:
  "snd patients_query 7 example_cdw =
   [\<lparr>vd_encounter_num = 12, vd_patient_num = 1, vd_start_date = Some 200, vd_other = []\<rparr>,
    \<lparr>vd_encounter_num = 20, vd_patient_num = 2, vd_start_date = Some 50, vd_other = []\<rparr>]"
  by code_simp

theorem encounter_query_latest_visit_witness:
  "(in_patient_set 7 example_cdw 1 \<and> has_patient_row example_cdw 1 \<and>
    (\<exists>v \<in> set (visit_dimension example_cdw). vd_patient_num v = 1 \<and> vd_start_date v \<noteq> None)) \<and>
   distinct (map vd_encounter_num (visit_dimension example_cdw)) \<and>
   (\<exists>v \<in> set (snd patients_query 7 example_cdw). vd_patient_num v = 1 \<and> is_chosen example_cdw v) \<and>
   list_all (\<lambda>v. in_patient_set 7 example_cdw (vd_patient_num v) \<and>
                 has_patient_row example_cdw (vd_patient_num v) \<and> is_chosen example_cdw v)
     (snd patients_query 7 example_cdw)"
proof -
  have h: "in_patient_set 7 example_cdw 1 \<and> has_patient_row example_cdw 1 \<and>
    (\<exists>v \<in> set (visit_dimension example_cdw). vd_patient_num v = 1 \<and> vd_start_date v \<noteq> None)"
    by (simp add: in_patient_set_def has_patient_row_def example_cdw_def)
  have d: "distinct (map vd_encounter_num (visit_dimension example_cdw))"
    by (simp add: example_cdw_def)
  from h d encounter_query_latest_visit [of 7 example_cdw 1]
  show ?thesis unfolding list_all_iff by blast
qed

text \<open>
  Claim C5 as stated fails for a patient of the patient set that has no row in the
  patient table: patient 4 of the example is in patient set 7 and has a visit, and the
  encounter query returns no visit of this patient.
\<close>

theorem encounter_query_no_patient_row:
  "in_patient_set 7 example_cdw 4 \<and>
   \<lparr>vd_encounter_num = 40, vd_patient_num = 4, vd_start_date = Some 10, vd_other = []\<rparr>
     \<in> set (visit_dimension example_cdw) \<and>
   filter (\<lambda>v. vd_patient_num v = 4) (snd patients_query 7 example_cdw) = []"
proof -
  have "in_patient_set 7 example_cdw 4"
    by (simp add: in_patient_set_def example_cdw_def)
  moreover have "\<lparr>vd_encounter_num = 40, vd_patient_num = 4, vd_start_date = Some 10, vd_other = []\<rparr>
     \<in> set (visit_dimension example_cdw)"
    by (simp add: example_cdw_def)
  moreover have "filter (\<lambda>v. vd_patient_num v = 4) (snd patients_query 7 example_cdw) = []"
    by code_simp
  ultimately show ?thesis by blast
qed

section \<open>The export\<close>

lemma bind_res_Inr: "bind_res m f = Inr y \<longleftrightarrow> (\<exists>x. m = Inr x \<and> f x = Inr y)"
  by (cases m) (simp_all add: bind_res_def)

lemma bind_res_simps: "bind_res (Inr x) f = f x" "bind_res (Inl e) f = Inl e"
  by (simp_all add: bind_res_def)

lemma execute_update_Inr:
  "execute_update db stmt = Inr db' \<longleftrightarrow> cdw_fault db = None \<and> db' = stmt db"
  by (auto simp: execute_update_def split: option.splits)

lemma execute_select_Inr:
  "execute_select db q = Inr rows \<longleftrightarrow> cdw_fault db = None \<and> rows = q db"
  by (auto simp: execute_select_def split: option.splits)

lemma save_concepts_Inr:
  "save_concepts cs = Inr b \<Longrightarrow> (\<exists>k. getitem cs ''keys'' = Inr k) \<and> (\<exists>nm. getitem cs ''names'' = Inr nm)"
  by (auto simp: save_concepts_def bind_res_Inr)

lemma fault_stmts [simp]:
  "cdw_fault (tmp_delete db) = cdw_fault db"
  "cdw_fault (tmp_insert rows db) = cdw_fault db"
  "cdw_fault (code_tmp_delete db) = cdw_fault db"
  "cdw_fault (fst (patient_data_queries tmp) db) = cdw_fault db"
  by (simp_all add: tmp_delete_def tmp_insert_def code_tmp_delete_def patient_data_queries_def
        Let_def)

lemma patient_data_Inr:
  assumes "patient_data j db = Inr (data, db')"
  shows "cdw_fault db = None \<and> cdw_fault db' = None \<and> (\<exists>b. save_concepts (concepts j) = Inr b)"
  using assms unfolding patient_data_def
  by (auto simp: bind_res_Inr execute_update_Inr execute_select_Inr Let_def case_prod_beta
           split: if_splits)

lemma patient_data_succeeds:
  assumes "cdw_fault db = None" "save_concepts (concepts j) = Inr b"
  shows "\<exists>data db'. patient_data j db = Inr (data, db') \<and> cdw_fault db' = None"
  using assms unfolding patient_data_def
  by (simp add: bind_res_simps execute_update_def execute_select_def Let_def case_prod_beta)

lemma term_info_Inr:
  assumes "term_info j db = Inr (res, db')"
  shows "cdw_fault db' = None"
  using assms unfolding term_info_def
  by (auto simp: bind_res_Inr execute_update_Inr execute_select_Inr Let_def case_prod_beta
           split: if_splits)

lemma copy_in_chunks_Some:
  "\<exists>rows' rest. copy_in_chunks n data name (Some rows) = Inr (Some rows', rest)"
proof (induction n data name "Some rows :: 'a list option" arbitrary: rows
         rule: copy_in_chunks.induct)
  case (1 n data name)
  show ?case
  proof (cases "take n data = []")
    case True
    then show ?thesis by simp
  next
    case False
    with "1.hyps" [of rows] show ?thesis by simp
  qed
qed

lemma copy_in_chunks_rest:
  "copy_in_chunks n data name tab = Inr (tab', rest) \<Longrightarrow> take n rest = []"
proof (induction n data name tab rule: copy_in_chunks.induct)
  case (1 n data name tab)
  show ?case
  proof (cases "take n data = []")
    case True
    with "1.prems" show ?thesis by simp
  next
    case False
    with "1.prems" obtain rows where tab: "tab = Some rows" by (cases tab) auto
    with False "1.prems" "1.IH" [of rows] show ?thesis by simp
  qed
qed

lemma copy_in_chunks_nothing:
  "take n data = [] \<Longrightarrow> copy_in_chunks n data name tab = Inr (tab, data)"
  by simp

lemma copy_in_chunks_all:
  "0 < n \<Longrightarrow> copy_in_chunks n data name (Some rows) = Inr (Some (rows @ data), [])"
proof (induction n data name "Some rows :: 'a list option" arbitrary: rows
         rule: copy_in_chunks.induct)
  case (1 n data name)
  show ?case
  proof (cases "take n data = []")
    case True
    with "1.prems" have "data = []" by simp
    then show ?thesis by simp
  next
    case False
    with "1.hyps" [of rows] "1.prems" show ?thesis by simp
  qed
qed

declare copy_in_chunks.simps [simp del]

lemma export_data_succeeds:
  assumes "cdw_fault db = None" "save_concepts (concepts j) = Inr b"
    and "dest_observation_fact dest = Some r"
  shows "\<exists>db1 dest1. export_data n j (db, dest) = Inr (db1, dest1) \<and>
           cdw_fault db1 = None \<and> dest_variable dest1 = dest_variable dest"
proof -
  from assms(1,2) obtain data db' where pd: "patient_data j db = Inr (data, db')"
      "cdw_fault db' = None"
    using patient_data_succeeds by blast
  obtain rows' rest where "copy_in_chunks n data ''observation_fact'' (Some []) =
      Inr (Some rows', rest)"
    using copy_in_chunks_Some by blast
  with pd assms(3) show ?thesis
    by (simp add: export_data_def bind_res_simps)
qed

lemma export_data_Inr:
  assumes "export_data n j (db, dest) = Inr (db1, dest1)"
  shows "cdw_fault db1 = None \<and> (\<exists>b. save_concepts (concepts j) = Inr b) \<and>
         dest_variable dest1 = dest_variable dest"
proof -
  from assms obtain data where pd: "patient_data j db = Inr (data, db1)"
    and d: "\<exists>obs. dest1 = dest\<lparr>dest_observation_fact := obs\<rparr>"
    unfolding export_data_def
    by (auto simp: bind_res_Inr split: option.splits)
  from pd patient_data_Inr [of j db data db1] d show ?thesis by auto
qed

lemma export_terms_exists:
  assumes "getitem (concepts j) ''keys'' = Inr k" "getitem (concepts j) ''names'' = Inr nm"
    and "dest_variable dest = Some rows"
  shows "export_terms n j (db, dest) = Inl (already_exists ''variable'')"
  using assms by (simp add: export_terms_def bind_res_simps Let_def)

lemma export_terms_Inr:
  assumes "export_terms n j (db, dest) = Inr (db', dest')"
  shows "cdw_fault db' = None \<and> dest_variable dest' \<noteq> None \<and>
         dest_modifier_dimension dest' = dest_modifier_dimension dest"
proof -
  from assms obtain keys names dest1 result_cd result_md cd rest md rest'
    where ti: "term_info j db = Inr ((result_cd, result_md), db')"
      and v: "dest_variable dest = None" "dest1 = dest\<lparr>dest_variable := Some []\<rparr>"
      and c1: "copy_in_chunks n result_cd ''concept_dimension''
                 (dest_concept_dimension dest1) = Inr (cd, rest)"
      and c2: "copy_in_chunks n rest ''modifier_dimension''
                 (dest_modifier_dimension dest1) = Inr (md, rest')"
      and d: "dest' = dest1\<lparr>dest_variable := Some
            [\<lparr>v_id = i, v_item_key = key, v_concept_path = p, v_name_char = name,
               v_name = strip_counts name\<rparr>.
               (i, (p, key, name)) \<leftarrow> List.enumerate 0 (zip (keys_to_paths keys) (zip keys names))],
             dest_concept_dimension := cd, dest_modifier_dimension := md\<rparr>"
    unfolding export_terms_def
    by (auto simp: bind_res_Inr Let_def split: option.splits)
  from c1 have "take n rest = []" by (rule copy_in_chunks_rest)
  with c2 have "md = dest_modifier_dimension dest1"
    by (simp add: copy_in_chunks_nothing)
  with ti v d term_info_Inr [of j db _ db'] show ?thesis by simp
qed

lemma export_patients_Inr:
  "export_patients n j (db, dest) = Inr (k, dest') \<Longrightarrow> dest_variable dest' = dest_variable dest"
  unfolding export_patients_def
  by (auto simp: bind_res_Inr case_prod_beta split: option.splits)

lemma export_summary_Inr:
  "export_summary dest = Inr (rows, dest') \<Longrightarrow> dest_variable dest' = dest_variable dest"
  unfolding export_summary_def
  by (auto split: if_splits option.splits)

lemma init_export_job [simp]:
  "dest_variable (export_job (init_tables dest) j) = dest_variable dest"
  "dest_observation_fact (export_job (init_tables dest) j) = Some []"
  by (simp_all add: export_job_def init_tables_def)

lemma export_Inr:
  assumes "export n fp j (db, dest) = Inr (out, db', dest')"
  shows "cdw_fault db' = None \<and> (\<exists>b. save_concepts (concepts j) = Inr b) \<and>
         dest_variable dest' \<noteq> None"
proof -
  from assms obtain db3 dest3 dest4 k dest5 rows
    where d: "export_data n j (db, export_job (init_tables dest) j) = Inr (db3, dest3)"
      and t: "export_terms n j (db3, dest3) = Inr (db', dest4)"
      and p: "export_patients n j (db', dest4) = Inr (k, dest5)"
      and s: "export_summary dest5 = Inr (rows, dest')"
    unfolding export_def
    by (auto simp: bind_res_Inr Let_def)
  from export_data_Inr [OF d] export_terms_Inr [OF t] export_patients_Inr [OF p]
    export_summary_Inr [OF s]
  show ?thesis by simp
qed

text \<open>
  Claim C6 fails on the code: whenever an export completes, the same export run again on
  the repository and the destination it has left does not complete. The tables of the
  star schema and the table \<^verbatim>\<open>job\<close> are dropped before they are created, the table
  \<^verbatim>\<open>variable\<close> is not, and its creation is refused on the second run.
\<close>

theorem export_twice_fails:
  assumes "export n fp j (db, dest) = Inr (out, db', dest')"
  shows "export n fp j (db', dest') = Inl (already_exists ''variable'')"
proof -
  from export_Inr [OF assms] obtain b rows where f: "cdw_fault db' = None"
    and sc: "save_concepts (concepts j) = Inr b"
    and v: "dest_variable dest' = Some rows"
    by auto
  from save_concepts_Inr [OF sc] obtain k nm
    where g: "getitem (concepts j) ''keys'' = Inr k" "getitem (concepts j) ''names'' = Inr nm"
    by blast
  from export_data_succeeds [OF f sc, of "export_job (init_tables dest') j" "[]" n]
  obtain db1 dest1
    where d: "export_data n j (db', export_job (init_tables dest') j) = Inr (db1, dest1)"
      and v1: "dest_variable dest1 = dest_variable dest'"
    by auto
  from v v1 have "export_terms n j (db1, dest1) = Inl (already_exists ''variable'')"
    by (intro export_terms_exists [OF g]) simp
  with d show ?thesis
    by (simp add: export_def bind_res_simps Let_def)
qed

theorem export_twice_fails_witness:
  "(case export 2 ''/home/demo/cohort.db'' example_job (example_cdw, example_dest) of
      Inl e \<Rightarrow> False
    | Inr (out, w) \<Rightarrow>
        export 2 ''/home/demo/cohort.db'' example_job w = Inl (already_exists ''variable''))"
proof -
  have "(case export 2 ''/home/demo/cohort.db'' example_job (example_cdw, example_dest) of
           Inl e \<Rightarrow> False | Inr x \<Rightarrow> True)"
    by code_simp
  then obtain out db' dest' where
     e: "export 2 ''/home/demo/cohort.db'' example_job (example_cdw, example_dest) =
      Inr (out, db', dest')"
    by (cases "export 2 ''/home/demo/cohort.db'' example_job (example_cdw, example_dest)") auto
  from export_twice_fails [OF e] e show ?thesis by simp
qed

text \<open>
  What \<open>export_terms\<close> copies, for a positive batch size: the rows of the concept
  query reach the concept table of the destination, and the modifier table is left as
  it was.
\<close>

lemma export_terms_copies:
  assumes "export_terms n j (db, dest) = Inr (db', dest')" and "0 < n"
    and "dest_concept_dimension dest = Some rows"
  shows "\<exists>result_cd result_md.
           term_info j db = Inr ((result_cd, result_md), db') \<and>
           dest_concept_dimension dest' = Some (rows @ result_cd) \<and>
           dest_modifier_dimension dest' = dest_modifier_dimension dest"
proof -
  from assms(1) obtain keys names dest1 result_cd result_md cd rest md rest'
    where ti: "term_info j db = Inr ((result_cd, result_md), db')"
      and v: "dest1 = dest\<lparr>dest_variable := Some []\<rparr>"
      and c1: "copy_in_chunks n result_cd ''concept_dimension''
                 (dest_concept_dimension dest1) = Inr (cd, rest)"
      and d: "dest' = dest1\<lparr>dest_variable := Some
            [\<lparr>v_id = i, v_item_key = key, v_concept_path = p, v_name_char = name,
               v_name = strip_counts name\<rparr>.
               (i, (p, key, name)) \<leftarrow> List.enumerate 0 (zip (keys_to_paths keys) (zip keys names))],
             dest_concept_dimension := cd, dest_modifier_dimension := md\<rparr>"
    unfolding export_terms_def
    by (auto simp: bind_res_Inr Let_def split: option.splits)
  from c1 v assms(2,3) have "cd = Some (rows @ result_cd)"
    by (simp add: copy_in_chunks_all)
  with ti d export_terms_Inr [OF assms(1)] show ?thesis by simp
qed

text \<open>
  Claim C8 fails on the code in its modifier half. On the example, the modifier query
  yields one row and the concept query two; after \<open>export_terms\<close> on the freshly
  initialised destination, the concept table holds the two rows of the concept query
  and the modifier table holds no row.
\<close>

theorem export_terms_modifier_rows_not_copied:
  "(case term_info example_job example_cdw of
      Inl e \<Rightarrow> False
    | Inr ((result_cd, result_md), db') \<Rightarrow>
        result_cd = [(mk_path [''a'', ''b''], ''C1'', ''b''),
                     (mk_path [''a'', ''b'', ''c''], ''C2'', ''c'')] \<and>
        result_md = [(mk_path [''a'', ''b''], ''M1'', ''m1'')]) \<and>
   (case export_terms 2 example_job (example_cdw, init_tables example_dest) of
      Inl e \<Rightarrow> False
    | Inr (db', dest') \<Rightarrow>
        dest_concept_dimension dest' =
          Some [(mk_path [''a'', ''b''], ''C1'', ''b''),
                (mk_path [''a'', ''b'', ''c''], ''C2'', ''c'')] \<and>
        dest_modifier_dimension dest' = Some [])"
  by code_simp

section \<open>The entry point\<close>

text \<open>
  Claim C7, amended. Once the access to the repository and the storage is obtained: an
  \<^verbatim>\<open>IOError\<close> raised while the job is built or exported is turned into the reply
  \<^verbatim>\<open>['error:', message]\<close>; an error of any other class raised there leaves the
  entry point as it is; and a build that completes gives the reply with the result.
\<close>

theorem call_converts_IOError_only:
  "access username = Inr (account, job_storage) \<and> job_storage fname = (dest, full_path) \<longrightarrow>
   (build_dataset n full_path username lbl cs fname pset (account, dest) = Inl (IOError msg) \<longrightarrow>
      BuilderApp_call n access username lbl cs fname pset = Inr (Error_Reply msg)) \<and>
   (build_dataset n full_path username lbl cs fname pset (account, dest) = Inl e \<and>
    \<not> is_IOError e \<longrightarrow>
      BuilderApp_call n access username lbl cs fname pset = Inl e) \<and>
   (build_dataset n full_path username lbl cs fname pset (account, dest) = Inr (out, w) \<longrightarrow>
      BuilderApp_call n access username lbl cs fname pset = Inr (Json_Reply out))"
  by (cases e) (auto simp: BuilderApp_call_def bind_res_simps)

theorem call_converts_IOError_only_witness:
  "BuilderApp_call 2 (example_access (example_cdw\<lparr>cdw_fault := Some (IOError ''disk full'')\<rparr>))
      ''demo'' ''Interesting Cohort'' example_concepts ''cohort'' 7
     = Inr (Error_Reply ''disk full'') \<and>
   BuilderApp_call 2 (example_access example_cdw)
      ''demo'' ''Interesting Cohort'' [] ''cohort'' 7
     = Inl (KeyError ''keys'') \<and>
   BuilderApp_call 2 (example_access example_cdw)
      ''demo'' ''Interesting Cohort'' example_concepts ''cohort'' 7
     = Inr (Json_Reply \<lparr>out_id = 7, out_n_patient = 2, out_filename = ''/home/demo/cohort.db'',
                         out_str = [(''n1 [2 facts]'', 2, 2)]\<rparr>)"
proof -
  have a: "example_access db ''demo'' =
      Inr (db, \<lambda>fname. (example_dest, ''/home/'' @ ''demo'' @ ''/'' @ fname @ ''.db'')) \<and>
      (\<lambda>fname. (example_dest, ''/home/'' @ ''demo'' @ ''/'' @ fname @ ''.db'')) ''cohort'' =
      (example_dest, ''/home/demo/cohort.db'')" for db
    by (simp add: example_access_def)
  have b1: "build_dataset 2 ''/home/demo/cohort.db'' ''demo'' ''Interesting Cohort''
        example_concepts ''cohort'' 7
        (example_cdw\<lparr>cdw_fault := Some (IOError ''disk full'')\<rparr>, example_dest)
      = Inl (IOError ''disk full'')"
    by code_simp
  have b2: "build_dataset 2 ''/home/demo/cohort.db'' ''demo'' ''Interesting Cohort''
        [] ''cohort'' 7 (example_cdw, example_dest)
      = Inl (KeyError ''keys'') \<and> \<not> is_IOError (KeyError ''keys'')"
    by code_simp
  from a b1 call_converts_IOError_only
    [of "example_access (example_cdw\<lparr>cdw_fault := Some (IOError ''disk full'')\<rparr>)"
        "''demo''" "example_cdw\<lparr>cdw_fault := Some (IOError ''disk full'')\<rparr>"
        "\<lambda>fname. (example_dest, ''/home/'' @ ''demo'' @ ''/'' @ fname @ ''.db'')"
        "''cohort''" example_dest "''/home/demo/cohort.db''" 2 "''Interesting Cohort''"
        example_concepts 7 "''disk full''"]
  have "BuilderApp_call 2 (example_access (example_cdw\<lparr>cdw_fault := Some (IOError ''disk full'')\<rparr>))
      ''demo'' ''Interesting Cohort'' example_concepts ''cohort'' 7
     = Inr (Error_Reply ''disk full'')" by blast
  moreover from a b2 call_converts_IOError_only
    [of "example_access example_cdw"
        "''demo''" "example_cdw"
        "\<lambda>fname. (example_dest, ''/home/'' @ ''demo'' @ ''/'' @ fname @ ''.db'')"
        "''cohort''" example_dest "''/home/demo/cohort.db''" 2 "''Interesting Cohort''"
        "[]" 7 _ "KeyError ''keys''"]
  have "BuilderApp_call 2 (example_access example_cdw)
      ''demo'' ''Interesting Cohort'' [] ''cohort'' 7
     = Inl (KeyError ''keys'')" by blast
  moreover have "BuilderApp_call 2 (example_access example_cdw)
      ''demo'' ''Interesting Cohort'' example_concepts ''cohort'' 7
     = Inr (Json_Reply \<lparr>out_id = 7, out_n_patient = 2, out_filename = ''/home/demo/cohort.db'',
                         out_str = [(''n1 [2 facts]'', 2, 2)]\<rparr>)"
  proof -
    have "(case build_dataset 2 ''/home/demo/cohort.db'' ''demo'' ''Interesting Cohort''
             example_concepts ''cohort'' 7 (example_cdw, example_dest) of
             Inl e \<Rightarrow> False
           | Inr (out, w) \<Rightarrow>
               out = \<lparr>out_id = 7, out_n_patient = 2, out_filename = ''/home/demo/cohort.db'',
                       out_str = [(''n1 [2 facts]'', 2, 2)]\<rparr>)"
      by code_simp
    then obtain w where b3: "build_dataset 2 ''/home/demo/cohort.db'' ''demo''
          ''Interesting Cohort'' example_concepts ''cohort'' 7 (example_cdw, example_dest)
        = Inr (\<lparr>out_id = 7, out_n_patient = 2, out_filename = ''/home/demo/cohort.db'',
                 out_str = [(''n1 [2 facts]'', 2, 2)]\<rparr>, w)"
      by (cases "build_dataset 2 ''/home/demo/cohort.db'' ''demo'' ''Interesting Cohort''
             example_concepts ''cohort'' 7 (example_cdw, example_dest)") auto
    from a b3 call_converts_IOError_only
      [of "example_access example_cdw"
          "''demo''" "example_cdw"
          "\<lambda>fname. (example_dest, ''/home/'' @ ''demo'' @ ''/'' @ fname @ ''.db'')"
          "''cohort''" example_dest "''/home/demo/cohort.db''" 2 "''Interesting Cohort''"
          example_concepts 7 _ _
          "\<lparr>out_id = 7, out_n_patient = 2, out_filename = ''/home/demo/cohort.db'',
            out_str = [(''n1 [2 facts]'', 2, 2)]\<rparr>" w]
    show ?thesis by blast
  qed
  ultimately show ?thesis by blast
qed

text \<open>
  Claim C7 as stated fails: an error of the database layer, raised when the staging
  table is cleared, is no \<^verbatim>\<open>IOError\<close> and leaves the entry point.
\<close>

theorem call_propagates_database_error:
  "build_dataset 2 ''/home/demo/cohort.db'' ''demo'' ''Interesting Cohort''
        example_concepts ''cohort'' 7
        (example_cdw\<lparr>cdw_fault := Some (DatabaseError ''ORA-03113'')\<rparr>, example_dest)
     = Inl (DatabaseError ''ORA-03113'') \<and>
   BuilderApp_call 2 (example_access (example_cdw\<lparr>cdw_fault := Some (DatabaseError ''ORA-03113'')\<rparr>))
      ''demo'' ''Interesting Cohort'' example_concepts ''cohort'' 7
     = Inl (DatabaseError ''ORA-03113'')"
  by code_simp

end
